theory Spec2Isabelle
  imports Main "HOL-Library.Word" "HOL-Library.Multiset" "HOL-Library.AList"
begin

section \<open>Standard streams and integer formatting\<close>

text \<open>
  \<^verbatim>\<open>std::cout\<close> and \<^verbatim>\<open>std::cerr\<close> are the two character sequences written so far.
  Every \<^verbatim>\<open><<\<close> of the source appends to one of them.
\<close>

record ostreams =
  cout_buf :: string
  cerr_buf :: string

definition no_output :: ostreams where
  "no_output = \<lparr>cout_buf = [], cerr_buf = []\<rparr>"

definition cout :: "string \<Rightarrow> ostreams \<Rightarrow> ostreams" where
  "cout s os = os\<lparr>cout_buf := cout_buf os @ s\<rparr>"

definition cerr :: "string \<Rightarrow> ostreams \<Rightarrow> ostreams" where
  "cerr s os = os\<lparr>cerr_buf := cerr_buf os @ s\<rparr>"

text \<open>\<^verbatim>\<open>size_t\<close> is a 64-bit unsigned integer: \<^verbatim>\<open>++\<close> wraps around.\<close>

type_synonym size_t = "64 word"

definition digit_char :: "nat \<Rightarrow> char" where
  "digit_char d = ''0123456789'' ! d"

function show_nat :: "nat \<Rightarrow> string" where
  "show_nat n = (if n < 10 then [digit_char n] else show_nat (n div 10) @ [digit_char (n mod 10)])"
  by pat_completeness auto
termination
  by (relation "measure id") auto

declare show_nat.simps [simp del]

text \<open>\<^verbatim>\<open>os << n\<close> for an unsigned \<^verbatim>\<open>size_t\<close> and for a signed \<^verbatim>\<open>long\<close>: decimal digits.\<close>

definition show_size_t :: "size_t \<Rightarrow> string" where
  "show_size_t n = show_nat (unat n)"

definition show_long :: "int \<Rightarrow> string" where
  "show_long i = (if i < 0 then CHR ''-'' # show_nat (nat (- i)) else show_nat (nat i))"

section \<open>Stack snapshots\<close>

text \<open>
  \<^verbatim>\<open>frames_t\<close> is a vector of frames, innermost call first; the frame type and its
  \<^verbatim>\<open>operator<<\<close> are declared in \<^verbatim>\<open>frame.h\<close>, so frames are a type parameter \<open>'f\<close> and
  the printing function is the parameter \<open>frame_str\<close> of everything that prints.
  \<^verbatim>\<open>FrameTS\<close> pairs a \<^verbatim>\<open>system_clock\<close> time point with a frame sequence. A time point is
  the signed count of clock periods since the epoch.
\<close>

record 'f FrameTS =
  ts :: int
  frames :: "'f list"

text \<open>
  \<^verbatim>\<open>duration_cast<microseconds>(t.time_since_epoch()).count()\<close>, for a clock with
  \<open>per_us\<close> periods in a microsecond (1000 where \<^verbatim>\<open>system_clock\<close> counts nanoseconds):
  the cast truncates towards zero.
\<close>

definition micros :: "int \<Rightarrow> int \<Rightarrow> int" where
  "micros per_us t = (if t < 0 then - ((- t) div per_us) else t div per_us)"

section \<open>The folded printer\<close>

text \<open>
  \<^verbatim>\<open>buckets_t\<close> is an \<^verbatim>\<open>unordered_map\<close> from frame sequences to counts. It is kept as an
  association list with distinct keys, in insertion order. The order in which the
  range-for of the source visits the entries is fixed by \<^verbatim>\<open>FrameHash\<close> (in \<^verbatim>\<open>frame.h\<close>)
  and the table's history; it is the parameter \<open>iteration_order\<close>, which maps the entries
  to the sequence in which they are visited.
\<close>

type_synonym 'f buckets_t = "('f list \<times> size_t) list"

definition bucket_step :: "'f buckets_t \<Rightarrow> 'f FrameTS \<Rightarrow> 'f buckets_t" where
  "bucket_step buckets call_stack =
     (case map_of buckets (frames call_stack) of
        None \<Rightarrow> buckets @ [(frames call_stack, 1)]
      | Some n \<Rightarrow> AList.update (frames call_stack) (n + 1) buckets)"

definition fill_buckets :: "'f FrameTS list \<Rightarrow> 'f buckets_t" where
  "fill_buckets call_stacks = foldl bucket_step [] call_stacks"

text \<open>
  The inner loop of \<^verbatim>\<open>PrintFrames\<close> runs over the reversed key from \<^verbatim>\<open>rbegin()\<close> up to,
  and excluding, \<^verbatim>\<open>last = rend() - 1\<close>; the argument here is the reversed key.
\<close>

fun print_before_last :: "('f \<Rightarrow> string) \<Rightarrow> 'f list \<Rightarrow> ostreams \<Rightarrow> ostreams" where
  "print_before_last frame_str (x # y # ys) os =
     print_before_last frame_str (y # ys) (cout (frame_str x @ '';'') os)"
| "print_before_last frame_str [x] os = os"
| "print_before_last frame_str [] os = os"

fun print_buckets :: "('f \<Rightarrow> string) \<Rightarrow> 'f buckets_t \<Rightarrow> ostreams \<Rightarrow> ostreams" where
  "print_buckets frame_str [] os = os"
| "print_buckets frame_str ((key, n) # kvs) os =
     (case key of
        [] \<Rightarrow> cerr ''fatal error\<newline>'' os
      | f0 # _ \<Rightarrow>
          print_buckets frame_str kvs
            (cout (frame_str f0 @ '' '' @ show_size_t n @ ''\<newline>'')
               (print_before_last frame_str (rev key) os)))"

definition PrintFrames ::
  "('f \<Rightarrow> string) \<Rightarrow> ('f buckets_t \<Rightarrow> 'f buckets_t) \<Rightarrow> 'f FrameTS list \<Rightarrow> size_t \<Rightarrow>
   ostreams \<Rightarrow> ostreams" where
  "PrintFrames frame_str iteration_order call_stacks idle os =
     (let os1 = (if idle \<noteq> 0 then cout (''(idle) '' @ show_size_t idle @ ''\<newline>'') os else os);
          buckets = fill_buckets call_stacks
      in print_buckets frame_str (iteration_order buckets) os1)"

section \<open>The timestamped printer\<close>

text \<open>The frame loop of \<^verbatim>\<open>PrintFramesTS\<close>, from \<^verbatim>\<open>rbegin()\<close> to \<^verbatim>\<open>rend()\<close>, on the reversed sequence.\<close>

fun print_each :: "('f \<Rightarrow> string) \<Rightarrow> 'f list \<Rightarrow> ostreams \<Rightarrow> ostreams" where
  "print_each frame_str [] os = os"
| "print_each frame_str (x # xs) os = print_each frame_str xs (cout (frame_str x @ '';'') os)"

fun PrintFramesTS ::
  "('f \<Rightarrow> string) \<Rightarrow> int \<Rightarrow> 'f FrameTS list \<Rightarrow> ostreams \<Rightarrow> ostreams" where
  "PrintFramesTS frame_str per_us [] os = os"
| "PrintFramesTS frame_str per_us (call_stack # rest) os =
     (let os1 = cout (show_long (micros per_us (ts call_stack)) @ ''\<newline>'') os
      in if frames call_stack = []
         then PrintFramesTS frame_str per_us rest (cout ''(idle)\<newline>'' os1)
         else PrintFramesTS frame_str per_us rest
                (cout ''\<newline>'' (print_each frame_str (rev (frames call_stack)) os1)))"

section \<open>The command line\<close>

definition usage_str :: string where
  "usage_str =
     ''Usage: pyflame [options] <pid>\<newline>'' @
     ''\<newline>'' @
     ''General Options:\<newline>'' @
     ''  -h, --help           Show help\<newline>'' @
     ''  -s, --seconds=SECS   How many seconds to run for (default 1)\<newline>'' @
     ''  -r, --rate=RATE      Sample rate, as a fractional value of seconds '' @
     ''(default 0.001)\<newline>'' @
     ''  -v, --version        Show the version\<newline>'' @
     ''  -x, --exclude-idle   Exclude idle time from statistics\<newline>'' @
     ''  -t, --timestamp      Include timestamps for each stacktrace\<newline>''"

text \<open>
  The local variables that the option loop of \<^verbatim>\<open>main\<close> sets. The two \<^verbatim>\<open>double\<close>s are only
  ever used as \<^verbatim>\<open>static_cast<long>(x * 1000000)\<close>; \<open>seconds\<close> and \<open>sample_rate\<close> hold
  that \<^verbatim>\<open>long\<close>, a number of microseconds.
\<close>

record options =
  include_idle :: bool
  include_ts :: bool
  seconds :: int
  sample_rate :: int

definition default_options :: options where
  "default_options =
     \<lparr>include_idle = True, include_ts = False, seconds = 1000000, sample_rate = 1000\<rparr>"

text \<open>
  What one call of \<^verbatim>\<open>getopt_long\<close> returns, one constructor per \<^verbatim>\<open>case\<close> of the switch.
  \<open>Opt_r\<close> and \<open>Opt_s\<close> carry the converted \<^verbatim>\<open>optarg\<close>, or \<open>None\<close> when \<^verbatim>\<open>std::stod\<close>
  throws (outside any \<^verbatim>\<open>try\<close>: the process is aborted). \<open>Opt_unknown\<close> carries the message
  that \<^verbatim>\<open>getopt_long\<close> itself has written to the standard error. The end of the list is
  the return value -1.
\<close>

datatype getopt_result =
    Opt_0
  | Opt_h
  | Opt_r "int option"
  | Opt_s "int option"
  | Opt_v
  | Opt_x
  | Opt_t
  | Opt_unknown string
  | Opt_other

datatype status = Exit int | Aborted

fun getopt_loop ::
  "string \<Rightarrow> string \<Rightarrow> getopt_result list \<Rightarrow> options \<Rightarrow> ostreams \<Rightarrow>
   (ostreams \<times> status) + (options \<times> ostreams)" where
  "getopt_loop package_string build_note [] opts os = Inr (opts, os)"
| "getopt_loop package_string build_note (c # cs) opts os =
     (case c of
        Opt_0 \<Rightarrow> getopt_loop package_string build_note cs opts os
      | Opt_h \<Rightarrow> Inl (cout usage_str os, Exit 0)
      | Opt_r None \<Rightarrow> Inl (os, Aborted)
      | Opt_r (Some v) \<Rightarrow>
          getopt_loop package_string build_note cs (opts\<lparr>sample_rate := v\<rparr>) os
      | Opt_s None \<Rightarrow> Inl (os, Aborted)
      | Opt_s (Some v) \<Rightarrow>
          getopt_loop package_string build_note cs (opts\<lparr>seconds := v\<rparr>) os
      | Opt_v \<Rightarrow>
          Inl (cout (build_note @ ''\<newline>'')
                 (cout (package_string @ ''\<newline>\<newline>'') os), Exit 0)
      | Opt_x \<Rightarrow> getopt_loop package_string build_note cs (opts\<lparr>include_idle := False\<rparr>) os
      | Opt_t \<Rightarrow> getopt_loop package_string build_note cs (opts\<lparr>include_ts := True\<rparr>) os
      | Opt_unknown msg \<Rightarrow> getopt_loop package_string build_note cs opts (cerr msg os)
      | Opt_other \<Rightarrow> Inl (os, Aborted))"

text \<open>
  \<^verbatim>\<open>std::strtol(s, nullptr, 10)\<close> of the C library, on a 64-bit \<^verbatim>\<open>long\<close>: white space is
  skipped, then an optional sign and the longest run of decimal digits are read; with
  no digit the result is 0, and a value out of range is clamped. No error is reported
  to a caller that passes \<^verbatim>\<open>nullptr\<close> and does not read \<^verbatim>\<open>errno\<close>.
\<close>

definition LONG_MAX :: int where "LONG_MAX = 2 ^ 63 - 1"
definition LONG_MIN :: int where "LONG_MIN = - (2 ^ 63)"

text \<open>
  Arithmetic on \<^verbatim>\<open>long\<close> and on the 64-bit counts of \<^verbatim>\<open>std::chrono\<close>: the result is
  reduced to the 64-bit two's complement range, as the compiled code does.
\<close>

definition wrap_long :: "int \<Rightarrow> int" where
  "wrap_long x = (x + 2 ^ 63) mod 2 ^ 64 - 2 ^ 63"

definition isspace :: "char \<Rightarrow> bool" where
  "isspace c = (c \<in> set [CHR '' '', CHR 0x09, CHR 0x0A, CHR 0x0B, CHR 0x0C, CHR 0x0D])"

definition isdigit :: "char \<Rightarrow> bool" where
  "isdigit c = (c \<in> set ''0123456789'')"

definition digit_val :: "char \<Rightarrow> int" where
  "digit_val c = int (of_char c) - 48"

definition skip_sign :: "string \<Rightarrow> bool \<times> string" where
  "skip_sign s =
     (case s of
        [] \<Rightarrow> (False, [])
      | c # r \<Rightarrow> if c = CHR ''-'' then (True, r) else if c = CHR ''+'' then (False, r) else (False, s))"

definition subject_digits :: "string \<Rightarrow> string" where
  "subject_digits s = takeWhile isdigit (snd (skip_sign (dropWhile isspace s)))"

definition strtol :: "string \<Rightarrow> int" where
  "strtol s =
     (let neg = fst (skip_sign (dropWhile isspace s));
          v = foldl (\<lambda>a c. a * 10 + digit_val c) 0 (subject_digits s);
          r = (if neg then - v else v)
      in if r > LONG_MAX then LONG_MAX else if r < LONG_MIN then LONG_MIN else r)"

text \<open>\<^verbatim>\<open>std::numeric_limits<pid_t>\<close>, for the 32-bit signed \<^verbatim>\<open>pid_t\<close> of Linux.\<close>

definition pid_t_max :: int where "pid_t_max = 2 ^ 31 - 1"
definition pid_t_min :: int where "pid_t_min = - (2 ^ 31)"

section \<open>The sampling run\<close>

text \<open>
  The functions of \<^verbatim>\<open>ptrace.h\<close>, \<^verbatim>\<open>namespace.h\<close>, \<^verbatim>\<open>tstate.h\<close> and \<^verbatim>\<open>frame.h\<close> act on the
  traced process. They return or throw; \<^verbatim>\<open>main\<close> tells \<^verbatim>\<open>PtraceException\<close> from every
  other \<^verbatim>\<open>std::exception\<close>. Both carry the text of \<^verbatim>\<open>what()\<close>.
\<close>

datatype exn = PtraceException string | StdException string

fun what :: "exn \<Rightarrow> string" where
  "what (PtraceException msg) = msg"
| "what (StdException msg) = msg"

text \<open>
  The traced process and the clock are a script of what each external call answers.
  One \<open>tick\<close> holds the answers for one iteration of the sampling loop, in the order of
  the calls; an answer is only consulted when the iteration gets to its call.
\<close>

record 'f tick =
  FirstFrameAddr_r :: "exn + 64 word"
  now_r :: int
  GetStack_r :: "exn + 'f list"
  PtraceDetach_r :: "exn option"
  PtraceAttach_r :: "exn option"

record 'f world =
  attach_r :: "exn option"
  Namespace_r :: "exn option"
  ThreadStateAddr_r :: "exn + 64 word"
  start_r :: int
  ticks :: "'f tick list"

text \<open>The external calls that a run makes, with their arguments and answers.\<close>

datatype 'f call =
    Call_PtraceAttach int "exn option"
  | Call_Namespace int "exn option"
  | Call_ThreadStateAddr int "exn + 64 word"
  | Call_now int
  | Call_FirstFrameAddr int "64 word" "exn + 64 word"
  | Call_GetStack int "64 word" "exn + 'f list"
  | Call_PtraceDetach int "exn option"
  | Call_sleep_for int

text \<open>
  The two variables that \<^verbatim>\<open>main\<close> declares before the \<^verbatim>\<open>try\<close> and that its handlers
  read, and the log of the calls made so far.
\<close>

record 'f locals =
  call_stacks :: "'f FrameTS list"
  idle :: size_t
  calls :: "'f call list"

definition logged :: "'f call \<Rightarrow> 'f locals \<Rightarrow> 'f locals" where
  "logged c st = st\<lparr>calls := calls st @ [c]\<rparr>"

text \<open>
  The body of the loop from the test of \<^verbatim>\<open>frame_addr\<close> to the end of its \<^verbatim>\<open>else\<close>. The
  result is the exception thrown, if any, and the variables at that moment.
\<close>

definition take_sample ::
  "options \<Rightarrow> int \<Rightarrow> 64 word \<Rightarrow> 'f tick \<Rightarrow> 'f locals \<Rightarrow> exn option \<times> 'f locals" where
  "take_sample opts pid frame_addr t st =
     (if frame_addr = 0 then
        (if include_idle opts then
           (let st1 = st\<lparr>idle := idle st + 1\<rparr>
            in if include_ts opts
               then (None, st1\<lparr>call_stacks := call_stacks st1 @ [\<lparr>ts = now_r t, frames = []\<rparr>]\<rparr>)
               else (None, st1))
         else (None, st))
      else
        (let st1 = logged (Call_GetStack pid frame_addr (GetStack_r t)) st
         in case GetStack_r t of
              Inl e \<Rightarrow> (Some e, st1)
            | Inr fs \<Rightarrow>
                (None, st1\<lparr>call_stacks := call_stacks st1 @ [\<lparr>ts = now_r t, frames = fs\<rparr>]\<rparr>)))"

text \<open>
  One iteration of the \<^verbatim>\<open>for (;;)\<close> loop. \<open>interval\<close> is in microseconds and \<open>end_time\<close>
  a time point; \<^verbatim>\<open>now + interval\<close> converts the interval to clock periods, and both the
  conversion and the sum are 64-bit. \<open>Inl\<close> leaves
  the loop, by \<^verbatim>\<open>break\<close> (no exception) or by an exception; \<open>Inr\<close> goes on to the next
  iteration.
\<close>

definition loop_body ::
  "options \<Rightarrow> int \<Rightarrow> int \<Rightarrow> 64 word \<Rightarrow> int \<Rightarrow> int \<Rightarrow> 'f tick \<Rightarrow> 'f locals \<Rightarrow>
   (exn option \<times> 'f locals) + 'f locals" where
  "loop_body opts per_us pid tstate_addr interval end_time t st =
     (let st1 = logged (Call_FirstFrameAddr pid tstate_addr (FirstFrameAddr_r t)) st
      in case FirstFrameAddr_r t of
           Inl e \<Rightarrow> Inl (Some e, st1)
         | Inr frame_addr \<Rightarrow>
             (case take_sample opts pid frame_addr t (logged (Call_now (now_r t)) st1) of
                (Some e, st2) \<Rightarrow> Inl (Some e, st2)
              | (None, st2) \<Rightarrow>
                  if wrap_long (now_r t + wrap_long (interval * per_us)) \<ge> end_time
                  then Inl (None, st2)
                  else
                    (let st3 = logged (Call_PtraceDetach pid (PtraceDetach_r t)) st2
                     in case PtraceDetach_r t of
                          Some e \<Rightarrow> Inl (Some e, st3)
                        | None \<Rightarrow>
                            (let st4 = logged (Call_PtraceAttach pid (PtraceAttach_r t))
                                         (logged (Call_sleep_for interval) st3)
                             in case PtraceAttach_r t of
                                  Some e \<Rightarrow> Inl (Some e, st4)
                                | None \<Rightarrow> Inr st4))))"

text \<open>The loop. A script that ends before the loop does gives no result.\<close>

fun sampling_loop ::
  "options \<Rightarrow> int \<Rightarrow> int \<Rightarrow> 64 word \<Rightarrow> int \<Rightarrow> int \<Rightarrow> 'f tick list \<Rightarrow> 'f locals \<Rightarrow>
   (exn option \<times> 'f locals) option" where
  "sampling_loop opts per_us pid tstate_addr interval end_time [] st = None"
| "sampling_loop opts per_us pid tstate_addr interval end_time (t # rest) st =
     (case loop_body opts per_us pid tstate_addr interval end_time t st of
        Inl left \<Rightarrow> Some left
      | Inr st' \<Rightarrow> sampling_loop opts per_us pid tstate_addr interval end_time rest st')"

text \<open>The \<^verbatim>\<open>try\<close> block up to the end of the loop.\<close>

definition sample_all ::
  "options \<Rightarrow> int \<Rightarrow> int \<Rightarrow> 'f world \<Rightarrow> (exn option \<times> 'f locals) option" where
  "sample_all opts per_us pid w =
     (let st0 = \<lparr>call_stacks = [], idle = 0, calls = [Call_PtraceAttach pid (attach_r w)]\<rparr>
      in case attach_r w of
           Some e \<Rightarrow> Some (Some e, st0)
         | None \<Rightarrow>
             (let st1 = logged (Call_Namespace pid (Namespace_r w)) st0
              in case Namespace_r w of
                   Some e \<Rightarrow> Some (Some e, st1)
                 | None \<Rightarrow>
                     (let st2 = logged (Call_ThreadStateAddr pid (ThreadStateAddr_r w)) st1
                      in case ThreadStateAddr_r w of
                           Inl e \<Rightarrow> Some (Some e, st2)
                         | Inr tstate_addr \<Rightarrow>
                             sampling_loop opts per_us pid tstate_addr (sample_rate opts)
                               (wrap_long (start_r w + wrap_long (seconds opts * per_us)))
                               (ticks w)
                               (logged (Call_now (start_r w)) st2))))"

section \<open>main\<close>

text \<open>
  What the build supplies: \<^verbatim>\<open>operator<<\<close> on frames, the iteration order of the bucket
  table, the number of \<^verbatim>\<open>system_clock\<close> periods in a microsecond, and the two strings
  of \<^verbatim>\<open>config.h\<close> and \<^verbatim>\<open>version.h\<close>.
\<close>

record 'f build =
  frame_out :: "'f \<Rightarrow> string"
  bucket_order :: "'f buckets_t \<Rightarrow> 'f buckets_t"
  clock_per_us :: int
  PACKAGE_STRING :: string
  kBuildNote :: string

record 'f run =
  run_streams :: ostreams
  run_status :: status
  run_calls :: "'f call list"

definition emit :: "'f build \<Rightarrow> options \<Rightarrow> 'f locals \<Rightarrow> ostreams \<Rightarrow> ostreams" where
  "emit b opts st os =
     (if \<not> include_ts opts
      then PrintFrames (frame_out b) (bucket_order b) (call_stacks st) (idle st) os
      else PrintFramesTS (frame_out b) (clock_per_us b) (call_stacks st) os)"

text \<open>
  \<open>getopt_results\<close> is what the successive calls of \<^verbatim>\<open>getopt_long\<close> return and
  \<open>positional\<close> is \<^verbatim>\<open>argv[optind]\<close>, ..., \<^verbatim>\<open>argv[argc - 1]\<close> once it has returned -1: the
  test \<^verbatim>\<open>optind != argc - 1\<close> is that this list has not exactly one element, and
  \<^verbatim>\<open>argv[argc - 1]\<close> is its last element.
\<close>

definition main ::
  "'f build \<Rightarrow> getopt_result list \<Rightarrow> string list \<Rightarrow> 'f world \<Rightarrow> 'f run option" where
  "main b getopt_results positional w =
     (case getopt_loop (PACKAGE_STRING b) (kBuildNote b) getopt_results default_options no_output of
        Inl (os, st) \<Rightarrow> Some \<lparr>run_streams = os, run_status = st, run_calls = []\<rparr>
      | Inr (opts, os) \<Rightarrow>
          if length positional \<noteq> 1
          then Some \<lparr>run_streams = cerr usage_str os, run_status = Exit 1, run_calls = []\<rparr>
          else
            (let pid = strtol (last positional)
             in if pid > pid_t_max \<or> pid < pid_t_min
                then Some \<lparr>run_streams =
                              cerr (''PID '' @ show_long pid @ '' is out of valid PID range.\<newline>'') os,
                            run_status = Exit 1, run_calls = []\<rparr>
                else
                  (case sample_all opts (clock_per_us b) pid w of
                     None \<Rightarrow> None
                   | Some (None, st) \<Rightarrow>
                       Some \<lparr>run_streams = emit b opts st os, run_status = Exit 0,
                             run_calls = calls st\<rparr>
                   | Some (Some (PtraceException msg), st) \<Rightarrow>
                       if call_stacks st \<noteq> [] \<or> idle st \<noteq> 0
                       then Some \<lparr>run_streams = emit b opts st os, run_status = Exit 0,
                                  run_calls = calls st\<rparr>
                       else Some \<lparr>run_streams = cerr (msg @ ''\<newline>'') os, run_status = Exit 1,
                                  run_calls = calls st\<rparr>
                   | Some (Some (StdException msg), st) \<Rightarrow>
                       Some \<lparr>run_streams = cerr (msg @ ''\<newline>'') os, run_status = Exit 1,
                             run_calls = calls st\<rparr>)))"

section \<open>The output formats, as the specification words them\<close>

text \<open>
  The stack of a snapshot rendered root first, its frames joined by \<open>;\<close>; a line of the
  folded format, \<open>frame1;...;frameN COUNT\<close>; the idle line \<open>(idle) COUNT\<close>.
\<close>

fun join_semicolon :: "string list \<Rightarrow> string" where
  "join_semicolon [] = []"
| "join_semicolon [x] = x"
| "join_semicolon (x # y # ys) = x @ '';'' @ join_semicolon (y # ys)"

definition root_first :: "('f \<Rightarrow> string) \<Rightarrow> 'f list \<Rightarrow> string" where
  "root_first frame_str fs = join_semicolon (map frame_str (rev fs))"

definition folded_line :: "('f \<Rightarrow> string) \<Rightarrow> 'f list \<Rightarrow> nat \<Rightarrow> string" where
  "folded_line frame_str fs n = root_first frame_str fs @ '' '' @ show_nat n @ ''\<newline>''"

definition idle_line :: "nat \<Rightarrow> string" where
  "idle_line n = ''(idle) '' @ show_nat n @ ''\<newline>''"

text \<open>
  What \<^verbatim>\<open>PrintFramesTS\<close> writes for one snapshot: the microsecond count on a line of its
  own, then \<open>(idle)\<close> or the root-first stack with a \<open>;\<close> after every frame.
\<close>

definition ts_block :: "('f \<Rightarrow> string) \<Rightarrow> int \<Rightarrow> 'f FrameTS \<Rightarrow> string" where
  "ts_block frame_str per_us c =
     show_long (micros per_us (ts c)) @ ''\<newline>'' @
     (if frames c = [] then ''(idle)\<newline>'' else root_first frame_str (frames c) @ '';\<newline>'')"

section \<open>Reading the log of calls\<close>

text \<open>
  A tick is idle when \<^verbatim>\<open>FirstFrameAddr\<close> answers the null address; it yields a stack when
  \<^verbatim>\<open>GetStack\<close> returns one.
\<close>

fun is_idle_tick :: "'f call \<Rightarrow> bool" where
  "is_idle_tick (Call_FirstFrameAddr pid a (Inr frame_addr)) = (frame_addr = 0)"
| "is_idle_tick c = False"

fun is_stack_tick :: "'f call \<Rightarrow> bool" where
  "is_stack_tick (Call_GetStack pid a (Inr fs)) = True"
| "is_stack_tick c = False"

definition idle_ticks :: "'f call list \<Rightarrow> nat" where
  "idle_ticks cs = length (filter is_idle_tick cs)"

definition stack_ticks :: "'f call list \<Rightarrow> nat" where
  "stack_ticks cs = length (filter is_stack_tick cs)"

fun is_detach :: "'f call \<Rightarrow> bool" where
  "is_detach (Call_PtraceDetach pid r) = True"
| "is_detach c = False"

text \<open>The exception that a call answered with, if any.\<close>

fun thrown_by :: "'f call \<Rightarrow> exn option" where
  "thrown_by (Call_PtraceAttach pid r) = r"
| "thrown_by (Call_Namespace pid r) = r"
| "thrown_by (Call_ThreadStateAddr pid r) = (case r of Inl e \<Rightarrow> Some e | Inr a \<Rightarrow> None)"
| "thrown_by (Call_now t) = None"
| "thrown_by (Call_FirstFrameAddr pid a r) = (case r of Inl e \<Rightarrow> Some e | Inr a \<Rightarrow> None)"
| "thrown_by (Call_GetStack pid a r) = (case r of Inl e \<Rightarrow> Some e | Inr fs \<Rightarrow> None)"
| "thrown_by (Call_PtraceDetach pid r) = r"
| "thrown_by (Call_sleep_for d) = None"

text \<open>
  Whether the target is stopped by the tracer after a call: a successful
  \<^verbatim>\<open>PtraceAttach\<close> stops it, a successful \<^verbatim>\<open>PtraceDetach\<close> resumes it.
\<close>

fun attach_step :: "bool \<Rightarrow> 'f call \<Rightarrow> bool" where
  "attach_step a (Call_PtraceAttach pid r) = (if r = None then True else a)"
| "attach_step a (Call_PtraceDetach pid r) = (if r = None then False else a)"
| "attach_step a c = a"

definition attached :: "'f call list \<Rightarrow> bool" where
  "attached cs = foldl attach_step False cs"

text \<open>
  A log is orderly when every read of the target's memory (\<^verbatim>\<open>ThreadStateAddr\<close>,
  \<^verbatim>\<open>FirstFrameAddr\<close>, \<^verbatim>\<open>GetStack\<close>) happens while the target is stopped and every
  \<^verbatim>\<open>sleep_for\<close> while it runs. The state is the pair (stopped, orderly so far).
\<close>

fun order_step :: "bool \<times> bool \<Rightarrow> 'f call \<Rightarrow> bool \<times> bool" where
  "order_step (a, ok) (Call_ThreadStateAddr pid r) = (a, ok \<and> a)"
| "order_step (a, ok) (Call_FirstFrameAddr pid ta r) = (a, ok \<and> a)"
| "order_step (a, ok) (Call_GetStack pid fa r) = (a, ok \<and> a)"
| "order_step (a, ok) (Call_sleep_for d) = (a, ok \<and> \<not> a)"
| "order_step (a, ok) c = (attach_step a c, ok)"

definition orderly :: "'f call list \<Rightarrow> bool" where
  "orderly cs = snd (foldl order_step (False, True) cs)"

text \<open>
  The bookkeeping that the loop keeps up: the idle counter is the number of idle ticks
  when idle time is included and stays 0 when it is excluded; the snapshot vector has
  one snapshot per stack read, and one per idle tick only when idle time is included
  and timestamps are wanted.
\<close>

definition idle_counted :: "options \<Rightarrow> 'f locals \<Rightarrow> bool" where
  "idle_counted opts st =
     (idle st = (if include_idle opts then of_nat (idle_ticks (calls st)) else 0))"

definition snapshots_counted :: "options \<Rightarrow> 'f locals \<Rightarrow> bool" where
  "snapshots_counted opts st =
     (length (call_stacks st) =
        stack_ticks (calls st) +
        (if include_idle opts \<and> include_ts opts then idle_ticks (calls st) else 0))"

text \<open>
  A valid decimal number, in the words of the specification: an optional sign, then one
  or more decimal digits, and nothing else.
\<close>

definition is_decimal_number :: "string \<Rightarrow> bool" where
  "is_decimal_number s = (snd (skip_sign s) \<noteq> [] \<and> list_all isdigit (snd (skip_sign s)))"

section \<open>The snapshots and the protocol that a log shows\<close>

text \<open>
  The snapshots that a log of calls accounts for, in order: one per stack that
  \<^verbatim>\<open>GetStack\<close> returned, stamped with the clock reading of its tick, and one empty
  snapshot per idle tick, stamped likewise, when idle time is included and timestamps
  are wanted. The state is (the tick is idle and its clock reading is still to come,
  the last clock reading, the snapshots so far).
\<close>

definition snap_step ::
  "options \<Rightarrow> bool \<times> int \<times> 'f FrameTS list \<Rightarrow> 'f call \<Rightarrow> bool \<times> int \<times> 'f FrameTS list" where
  "snap_step opts s c =
     (case s of
        (pending, t, acc) \<Rightarrow>
          (case c of
             Call_FirstFrameAddr pid a r \<Rightarrow> (r = Inr 0, t, acc)
           | Call_now t' \<Rightarrow>
               (False, t',
                if pending \<and> include_idle opts \<and> include_ts opts
                then acc @ [\<lparr>ts = t', frames = []\<rparr>] else acc)
           | Call_GetStack pid a r \<Rightarrow>
               (False, t, case r of Inl e \<Rightarrow> acc | Inr fs \<Rightarrow> acc @ [\<lparr>ts = t, frames = fs\<rparr>])
           | _ \<Rightarrow> (pending, t, acc)))"

definition snap_state :: "options \<Rightarrow> 'f call list \<Rightarrow> bool \<times> int \<times> 'f FrameTS list" where
  "snap_state opts cs = foldl (snap_step opts) (False, 0, []) cs"

definition snapshots_of :: "options \<Rightarrow> 'f call list \<Rightarrow> 'f FrameTS list" where
  "snapshots_of opts cs = snd (snd (snap_state opts cs))"

text \<open>
  The order of calls of a sampling run, as a state machine over the log: attach,
  namespace, thread state, the clock reading that fixes the end time; then for every
  tick the first frame address, a clock reading and, for a non-null address, the stack;
  then the decision, which is to stop when the clock reading plus the interval has
  reached the end time (in 64-bit arithmetic); after a decision to go on, detach, sleep
  for the interval, attach, and the next tick. A call that throws ends the log. Any
  other call, and any call after a decision to stop or after a throw, leaves the
  protocol.
\<close>

datatype phase =
    Before_attach
  | Before_namespace
  | Before_tstate
  | Before_clock "64 word"
  | At_tick "64 word" int
  | After_first_frame "64 word" int "64 word"
  | After_clock "64 word" int "64 word" int
  | Decided "64 word" int bool
  | Detached "64 word" int
  | Slept "64 word" int
  | Threw exn
  | Off_protocol

definition deadline_reached :: "options \<Rightarrow> int \<Rightarrow> int \<Rightarrow> int \<Rightarrow> bool" where
  "deadline_reached opts per_us end_time t =
     (wrap_long (t + wrap_long (sample_rate opts * per_us)) \<ge> end_time)"

definition phase_step :: "options \<Rightarrow> int \<Rightarrow> int \<Rightarrow> phase \<Rightarrow> 'f call \<Rightarrow> phase" where
  "phase_step opts per_us pid ph c =
     (case ph of
        Before_attach \<Rightarrow>
          (case c of
             Call_PtraceAttach pid' r \<Rightarrow>
               if pid' \<noteq> pid then Off_protocol
               else (case r of None \<Rightarrow> Before_namespace | Some e \<Rightarrow> Threw e)
           | _ \<Rightarrow> Off_protocol)
      | Before_namespace \<Rightarrow>
          (case c of
             Call_Namespace pid' r \<Rightarrow>
               if pid' \<noteq> pid then Off_protocol
               else (case r of None \<Rightarrow> Before_tstate | Some e \<Rightarrow> Threw e)
           | _ \<Rightarrow> Off_protocol)
      | Before_tstate \<Rightarrow>
          (case c of
             Call_ThreadStateAddr pid' r \<Rightarrow>
               if pid' \<noteq> pid then Off_protocol
               else (case r of Inl e \<Rightarrow> Threw e | Inr ta \<Rightarrow> Before_clock ta)
           | _ \<Rightarrow> Off_protocol)
      | Before_clock ta \<Rightarrow>
          (case c of
             Call_now t \<Rightarrow> At_tick ta (wrap_long (t + wrap_long (seconds opts * per_us)))
           | _ \<Rightarrow> Off_protocol)
      | At_tick ta en \<Rightarrow>
          (case c of
             Call_FirstFrameAddr pid' ta' r \<Rightarrow>
               if pid' \<noteq> pid \<or> ta' \<noteq> ta then Off_protocol
               else (case r of Inl e \<Rightarrow> Threw e | Inr fa \<Rightarrow> After_first_frame ta en fa)
           | _ \<Rightarrow> Off_protocol)
      | After_first_frame ta en fa \<Rightarrow>
          (case c of
             Call_now t \<Rightarrow>
               if fa = 0 then Decided ta en (deadline_reached opts per_us en t)
               else After_clock ta en fa t
           | _ \<Rightarrow> Off_protocol)
      | After_clock ta en fa t \<Rightarrow>
          (case c of
             Call_GetStack pid' fa' r \<Rightarrow>
               if pid' \<noteq> pid \<or> fa' \<noteq> fa then Off_protocol
               else (case r of
                       Inl e \<Rightarrow> Threw e
                     | Inr fs \<Rightarrow> Decided ta en (deadline_reached opts per_us en t))
           | _ \<Rightarrow> Off_protocol)
      | Decided ta en stop \<Rightarrow>
          (case c of
             Call_PtraceDetach pid' r \<Rightarrow>
               if stop \<or> pid' \<noteq> pid then Off_protocol
               else (case r of None \<Rightarrow> Detached ta en | Some e \<Rightarrow> Threw e)
           | _ \<Rightarrow> Off_protocol)
      | Detached ta en \<Rightarrow>
          (case c of
             Call_sleep_for d \<Rightarrow> if d = sample_rate opts then Slept ta en else Off_protocol
           | _ \<Rightarrow> Off_protocol)
      | Slept ta en \<Rightarrow>
          (case c of
             Call_PtraceAttach pid' r \<Rightarrow>
               if pid' \<noteq> pid then Off_protocol
               else (case r of None \<Rightarrow> At_tick ta en | Some e \<Rightarrow> Threw e)
           | _ \<Rightarrow> Off_protocol)
      | Threw e \<Rightarrow> Off_protocol
      | Off_protocol \<Rightarrow> Off_protocol)"

definition phase_of :: "options \<Rightarrow> int \<Rightarrow> int \<Rightarrow> 'f call list \<Rightarrow> phase" where
  "phase_of opts per_us pid cs = foldl (phase_step opts per_us pid) Before_attach cs"

text \<open>How a log ends: at a decision to stop, or at the call that threw.\<close>

fun ended_as :: "phase \<Rightarrow> exn option \<Rightarrow> bool" where
  "ended_as (Decided ta en stop) None = stop"
| "ended_as (Threw e) (Some e') = (e = e')"
| "ended_as ph r = False"

section \<open>Example inputs\<close>

definition demo_stacks :: "string FrameTS list" where
  "demo_stacks =
     [\<lparr>ts = 10, frames = [''f'', ''main'']\<rparr>,
      \<lparr>ts = 20, frames = [''main'']\<rparr>,
      \<lparr>ts = 30, frames = [''f'', ''main'']\<rparr>]"

definition demo_build :: "string build" where
  "demo_build =
     \<lparr>frame_out = id, bucket_order = id, clock_per_us = 1000,
      PACKAGE_STRING = ''pyflame 1.0'', kBuildNote = ''demo build''\<rparr>"

definition stack_tick :: "int \<Rightarrow> string list \<Rightarrow> string tick" where
  "stack_tick t fs =
     \<lparr>FirstFrameAddr_r = Inr 4096, now_r = t, GetStack_r = Inr fs,
      PtraceDetach_r = None, PtraceAttach_r = None\<rparr>"

definition idle_tick :: "int \<Rightarrow> string tick" where
  "idle_tick t =
     \<lparr>FirstFrameAddr_r = Inr 0, now_r = t, GetStack_r = Inl (StdException ''not called''),
      PtraceDetach_r = None, PtraceAttach_r = None\<rparr>"

definition gone_tick :: "string tick" where
  "gone_tick =
     \<lparr>FirstFrameAddr_r = Inl (PtraceException ''No such process''), now_r = 0,
      GetStack_r = Inl (PtraceException ''No such process''),
      PtraceDetach_r = Some (PtraceException ''No such process''),
      PtraceAttach_r = Some (PtraceException ''No such process'')\<rparr>"

definition world_of :: "string tick list \<Rightarrow> string world" where
  "world_of tks =
     \<lparr>attach_r = None, Namespace_r = None, ThreadStateAddr_r = Inr 8192, start_r = 0,
      ticks = tks\<rparr>"

definition early_exit_world :: "string world" where
  "early_exit_world =
     world_of [stack_tick 100 [''f'', ''main''], stack_tick 1000100 [''main''],
               stack_tick 2000100 [''f'', ''main''], gone_tick, gone_tick, gone_tick,
               gone_tick, gone_tick, gone_tick, gone_tick]"

definition early_exit_locals :: "string locals" where
  "early_exit_locals =
     \<lparr>call_stacks = [\<lparr>ts = 100, frames = [''f'', ''main'']\<rparr>, \<lparr>ts = 1000100, frames = [''main'']\<rparr>,
                     \<lparr>ts = 2000100, frames = [''f'', ''main'']\<rparr>],
      idle = 0,
      calls = [Call_PtraceAttach 1234 None, Call_Namespace 1234 None,
               Call_ThreadStateAddr 1234 (Inr 8192), Call_now 0,
               Call_FirstFrameAddr 1234 8192 (Inr 4096), Call_now 100,
               Call_GetStack 1234 4096 (Inr [''f'', ''main'']),
               Call_PtraceDetach 1234 None, Call_sleep_for 1000, Call_PtraceAttach 1234 None,
               Call_FirstFrameAddr 1234 8192 (Inr 4096), Call_now 1000100,
               Call_GetStack 1234 4096 (Inr [''main'']),
               Call_PtraceDetach 1234 None, Call_sleep_for 1000, Call_PtraceAttach 1234 None,
               Call_FirstFrameAddr 1234 8192 (Inr 4096), Call_now 2000100,
               Call_GetStack 1234 4096 (Inr [''f'', ''main'']),
               Call_PtraceDetach 1234 None, Call_sleep_for 1000, Call_PtraceAttach 1234 None,
               Call_FirstFrameAddr 1234 8192 (Inl (PtraceException ''No such process''))]\<rparr>"

definition one_stack_world :: "string world" where
  "one_stack_world = world_of [stack_tick 1000000000 [''main'']]"

definition one_idle_world :: "string world" where
  "one_idle_world = world_of [idle_tick 1000000000]"

definition mixed_world :: "string world" where
  "mixed_world = world_of [idle_tick 100, stack_tick 1000100 [''main''], idle_tick 1000000000]"

definition no_target_world :: "string world" where
  "no_target_world =
     \<lparr>attach_r = Some (PtraceException ''Failed to attach to PID 1234''), Namespace_r = None,
      ThreadStateAddr_r = Inr 8192, start_r = 0, ticks = []\<rparr>"

definition mixed_locals :: "string locals" where
  "mixed_locals =
     \<lparr>call_stacks = [\<lparr>ts = 1000100, frames = [''main'']\<rparr>],
      idle = 2,
      calls = [Call_PtraceAttach 1234 None, Call_Namespace 1234 None,
               Call_ThreadStateAddr 1234 (Inr 8192), Call_now 0,
               Call_FirstFrameAddr 1234 8192 (Inr 0), Call_now 100,
               Call_PtraceDetach 1234 None, Call_sleep_for 1000, Call_PtraceAttach 1234 None,
               Call_FirstFrameAddr 1234 8192 (Inr 4096), Call_now 1000100,
               Call_GetStack 1234 4096 (Inr [''main'']),
               Call_PtraceDetach 1234 None, Call_sleep_for 1000, Call_PtraceAttach 1234 None,
               Call_FirstFrameAddr 1234 8192 (Inr 0), Call_now 1000000000]\<rparr>"

definition mixed_result :: "string run" where
  "mixed_result =
     \<lparr>run_streams = \<lparr>cout_buf = ''(idle) 2\<newline>main 1\<newline>'', cerr_buf = []\<rparr>,
      run_status = Exit 0, run_calls = calls mixed_locals\<rparr>"

definition excluded_idle_locals :: "string locals" where
  "excluded_idle_locals =
     \<lparr>call_stacks = [], idle = 0,
      calls = [Call_PtraceAttach 1234 None, Call_Namespace 1234 None,
               Call_ThreadStateAddr 1234 (Inr 8192), Call_now 0,
               Call_FirstFrameAddr 1234 8192 (Inr 0), Call_now 1000000000]\<rparr>"

definition one_stack_calls :: "string call list" where
  "one_stack_calls =
     [Call_PtraceAttach 1234 None, Call_Namespace 1234 None,
      Call_ThreadStateAddr 1234 (Inr 8192), Call_now 0,
      Call_FirstFrameAddr 1234 8192 (Inr 4096), Call_now 1000000000,
      Call_GetStack 1234 4096 (Inr [''main''])]"

definition long_run_world :: "string world" where
  "long_run_world = world_of [stack_tick 100 [''main''], stack_tick 1000100 [''main'']]"

definition long_run_locals :: "string locals" where
  "long_run_locals =
     \<lparr>call_stacks = [\<lparr>ts = 100, frames = [''main'']\<rparr>], idle = 0,
      calls = [Call_PtraceAttach 1234 None, Call_Namespace 1234 None,
               Call_ThreadStateAddr 1234 (Inr 8192), Call_now 0,
               Call_FirstFrameAddr 1234 8192 (Inr 4096), Call_now 100,
               Call_GetStack 1234 4096 (Inr [''main''])]\<rparr>"

section \<open>Facts about the printers\<close>


lemma cout_simps [simp]:
  "cout_buf (cout s os) = cout_buf os @ s"
  "cerr_buf (cout s os) = cerr_buf os"
  by (simp_all add: cout_def)

lemma cerr_simps [simp]:
  "cout_buf (cerr s os) = cout_buf os"
  "cerr_buf (cerr s os) = cerr_buf os @ s"
  by (simp_all add: cerr_def)

lemma print_each_cout:
  "cout_buf (print_each sh xs os) = cout_buf os @ concat (map (\<lambda>f. sh f @ '';'') xs)"
  by (induction xs arbitrary: os) simp_all

lemma print_each_cerr: "cerr_buf (print_each sh xs os) = cerr_buf os"
  by (induction xs arbitrary: os) simp_all

lemma print_before_last_cout:
  "cout_buf (print_before_last sh xs os) = cout_buf os @ concat (map (\<lambda>f. sh f @ '';'') (butlast xs))"
  by (induction sh xs os rule: print_before_last.induct) simp_all

lemma print_before_last_cerr: "cerr_buf (print_before_last sh xs os) = cerr_buf os"
  by (induction sh xs os rule: print_before_last.induct) simp_all

lemma join_semicolon_snoc:
  "join_semicolon (xs @ [x]) = concat (map (\<lambda>s. s @ '';'') xs) @ x"
  by (induction xs rule: join_semicolon.induct) simp_all

lemma join_semicolon_terminated:
  "xs \<noteq> [] \<Longrightarrow> concat (map (\<lambda>s. s @ '';'') xs) = join_semicolon xs @ '';''"
  by (induction xs rule: join_semicolon.induct) simp_all

lemma before_last_line:
  "cout_buf (print_before_last sh (rev (f0 # fs)) os) @ sh f0 = cout_buf os @ root_first sh (f0 # fs)"
  by (simp add: print_before_last_cout root_first_def join_semicolon_snoc comp_def)

lemma print_buckets_cout:
  "\<forall>kv \<in> set kvs. fst kv \<noteq> [] \<Longrightarrow>
   cout_buf (print_buckets sh kvs os) =
     cout_buf os @ concat (map (\<lambda>kv. folded_line sh (fst kv) (unat (snd kv))) kvs)"
proof (induction kvs arbitrary: os)
  case Nil
  then show ?case by simp
next
  case (Cons kv kvs)
  obtain key n where kv: "kv = (key, n)" by (cases kv)
  with Cons.prems obtain f0 fs where key: "key = f0 # fs" by (cases key) auto
  from Cons.prems have "\<forall>kv \<in> set kvs. fst kv \<noteq> []" by simp
  from Cons.IH [OF this] show ?case
    using before_last_line [of sh f0 fs os]
    by (simp add: kv key folded_line_def show_size_t_def del: rev.simps)
qed

lemma print_buckets_cerr:
  "\<forall>kv \<in> set kvs. fst kv \<noteq> [] \<Longrightarrow> cerr_buf (print_buckets sh kvs os) = cerr_buf os"
proof (induction kvs arbitrary: os)
  case Nil
  then show ?case by simp
next
  case (Cons kv kvs)
  obtain key n where kv: "kv = (key, n)" by (cases kv)
  with Cons.prems obtain f0 fs where key: "key = f0 # fs" by (cases key) auto
  from Cons.prems have "\<forall>kv \<in> set kvs. fst kv \<noteq> []" by simp
  from Cons.IH [OF this] show ?case
    by (simp add: kv key print_before_last_cerr del: rev.simps)
qed

lemma fill_buckets_snoc: "fill_buckets (cs @ [c]) = bucket_step (fill_buckets cs) c"
  by (simp add: fill_buckets_def)

lemma fill_buckets_distinct: "distinct (map fst (fill_buckets cs))"
proof (induction cs rule: rev_induct)
  case Nil
  then show ?case by (simp add: fill_buckets_def)
next
  case (snoc c cs)
  then show ?case
    by (auto simp: fill_buckets_snoc bucket_step_def distinct_update map_of_eq_None_iff
             split: option.splits)
qed

lemma fill_buckets_map_of:
  "map_of (fill_buckets cs) k =
     (if k \<in> frames ` set cs then Some (of_nat (count_list (map frames cs) k)) else None)"
proof (induction cs arbitrary: k rule: rev_induct)
  case Nil
  then show ?case by (simp add: fill_buckets_def)
next
  case (snoc c cs)
  show ?case
  proof (cases "frames c \<in> frames ` set cs")
    case True
    then have "map_of (fill_buckets cs) (frames c) = Some (of_nat (count_list (map frames cs) (frames c)))"
      by (simp add: snoc.IH)
    then show ?thesis
      by (simp add: fill_buckets_snoc bucket_step_def update_conv' snoc.IH True)
  next
    case False
    then have none: "map_of (fill_buckets cs) (frames c) = None"
      by (simp add: snoc.IH)
    from False have "count_list (map frames cs) (frames c) = 0"
      by (simp add: count_list_0_iff)
    with none False show ?thesis
      by (auto simp: fill_buckets_snoc bucket_step_def snoc.IH map_add_def split: option.splits)
  qed
qed


lemma print_buckets_cout_shift:
  "cout_buf (print_buckets sh kvs os) = cout_buf os @ cout_buf (print_buckets sh kvs no_output)"
proof (induction kvs arbitrary: os)
  case Nil
  then show ?case by (simp add: no_output_def)
next
  case (Cons kv kvs)
  obtain key n where kv: "kv = (key, n)" by (cases kv)
  show ?case
  proof (cases key)
    case Nil
    then show ?thesis by (simp add: kv no_output_def)
  next
    case (Cons f0 fs)
    show ?thesis
      using Cons.IH [of "cout (sh f0 @ '' '' @ show_size_t n @ ''\<newline>'') (print_before_last sh (rev key) os)"]
            Cons.IH [of "cout (sh f0 @ '' '' @ show_size_t n @ ''\<newline>'') (print_before_last sh (rev key) no_output)"]
      by (simp add: kv Cons print_before_last_cout no_output_def del: rev.simps)
  qed
qed

lemma unat_count:
  "n < 2 ^ 64 \<Longrightarrow> unat (of_nat n :: size_t) = n"
  by (simp add: unsigned_of_nat take_bit_nat_eq_self)

lemma PrintFrames_cout:
  fixes css :: "'f FrameTS list"
  assumes perm: "\<forall>b. mset (iteration_order b) = mset (b :: 'f buckets_t)"
    and nonempty: "\<forall>c \<in> set css. frames c \<noteq> []"
    and len: "length css < 2 ^ 64"
  shows "distinct (map fst (iteration_order (fill_buckets css))) \<and>
         set (map fst (iteration_order (fill_buckets css))) = frames ` set css \<and>
         cout_buf (PrintFrames sh iteration_order css n os) =
           cout_buf os @
           (if n = 0 then [] else ''(idle) '' @ show_size_t n @ ''\<newline>'') @
           concat (map (\<lambda>k. folded_line sh k (count_list (map frames css) k))
                     (map fst (iteration_order (fill_buckets css))))"
proof -
  define b where "b = fill_buckets css"
  define kvs where "kvs = iteration_order b"
  have m: "mset kvs = mset b" using perm by (simp add: kvs_def)
  then have set_kvs: "set kvs = set b" by (rule mset_eq_setD)
  have "mset (map fst kvs) = mset (map fst b)" using m by (metis mset_map)
  then have d: "distinct (map fst kvs)"
    using fill_buckets_distinct [of css] by (metis b_def mset_eq_imp_distinct_iff)
  have keys: "set (map fst kvs) = frames ` set css"
  proof -
    have "fst ` set b = dom (map_of b)" by (simp add: dom_map_of_conv_image_fst)
    also have "\<dots> = frames ` set css"
      by (auto simp: b_def fill_buckets_map_of dom_def split: if_splits)
    finally show ?thesis by (simp add: set_kvs)
  qed
  have val: "unat (snd kv) = count_list (map frames css) (fst kv)" if "kv \<in> set kvs" for kv
  proof -
    from that have "kv \<in> set b" by (simp add: set_kvs)
    then have "map_of b (fst kv) = Some (snd kv)"
      using fill_buckets_distinct [of css] by (simp add: b_def)
    then have "snd kv = of_nat (count_list (map frames css) (fst kv))"
      by (simp add: b_def fill_buckets_map_of split: if_splits)
    moreover have "count_list (map frames css) (fst kv) < 2 ^ 64"
      using count_le_length [of "map frames css" "fst kv"] len by simp
    ultimately show ?thesis by (simp add: unat_count)
  qed
  have ne: "\<forall>kv \<in> set kvs. fst kv \<noteq> []"
  proof
    fix kv assume "kv \<in> set kvs"
    then have "fst kv \<in> frames ` set css" using keys by auto
    then show "fst kv \<noteq> []" using nonempty by auto
  qed
  have "concat (map (\<lambda>kv. folded_line sh (fst kv) (unat (snd kv))) kvs) =
        concat (map (\<lambda>k. folded_line sh k (count_list (map frames css) k)) (map fst kvs))"
    using val by (simp add: comp_def cong: map_cong)
  then have "cout_buf (PrintFrames sh iteration_order css n os) =
             cout_buf os @
             (if n = 0 then [] else ''(idle) '' @ show_size_t n @ ''\<newline>'') @
             concat (map (\<lambda>k. folded_line sh k (count_list (map frames css) k)) (map fst kvs))"
    using print_buckets_cout [OF ne]
    by (simp add: PrintFrames_def Let_def b_def [symmetric] kvs_def [symmetric])
  with d keys show ?thesis by (simp add: kvs_def b_def)
qed

lemma PrintFrames_cerr:
  fixes css :: "'f FrameTS list"
  assumes perm: "\<forall>b. mset (iteration_order b) = mset (b :: 'f buckets_t)"
    and nonempty: "\<forall>c \<in> set css. frames c \<noteq> []"
  shows "cerr_buf (PrintFrames sh iteration_order css n os) = cerr_buf os"
proof -
  define b where "b = fill_buckets css"
  define kvs where "kvs = iteration_order b"
  have "mset kvs = mset b" using perm by (simp add: kvs_def)
  then have set_kvs: "set kvs = set b" by (rule mset_eq_setD)
  have "fst ` set b = dom (map_of b)" by (simp add: dom_map_of_conv_image_fst)
  also have "\<dots> = frames ` set css"
    by (auto simp: b_def fill_buckets_map_of dom_def split: if_splits)
  finally have "fst ` set kvs = frames ` set css" by (simp add: set_kvs)
  then have mem: "\<And>kv. kv \<in> set kvs \<Longrightarrow> fst kv \<in> frames ` set css" by blast
  have "\<forall>kv \<in> set kvs. fst kv \<noteq> []"
  proof
    fix kv assume "kv \<in> set kvs"
    then have "fst kv \<in> frames ` set css" by (rule mem)
    then show "fst kv \<noteq> []" using nonempty by auto
  qed
  from print_buckets_cerr [OF this] show ?thesis
    by (simp add: PrintFrames_def Let_def b_def [symmetric] kvs_def [symmetric])
qed

lemma PrintFramesTS_cout:
  "cout_buf (PrintFramesTS sh p cs os) = cout_buf os @ concat (map (ts_block sh p) cs)"
proof (induction cs arbitrary: os)
  case Nil
  then show ?case by simp
next
  case (Cons c cs)
  have "frames c \<noteq> [] \<Longrightarrow>
        concat (map (\<lambda>f. sh f @ '';'') (rev (frames c))) = root_first sh (frames c) @ '';''"
    using join_semicolon_terminated [of "map sh (rev (frames c))"]
    by (simp add: root_first_def comp_def)
  then show ?case
    by (simp add: Cons.IH Let_def ts_block_def print_each_cout)
qed

lemma show_nat_digit: "n < 10 \<Longrightarrow> show_nat n = [digit_char n]"
  by (simp add: show_nat.simps)

lemma show_nat_step: "10 \<le> n \<Longrightarrow> show_nat n = show_nat (n div 10) @ [digit_char (n mod 10)]"
  by (subst show_nat.simps) simp

lemma show_long_nonneg: "0 \<le> i \<Longrightarrow> show_long i = show_nat (nat i)"
  by (simp add: show_long_def)

lemma show_size_t_1: "show_size_t 1 = ''1''"
  by (simp add: show_size_t_def show_nat_digit digit_char_def)

lemma perm_single:
  assumes "\<forall>b. mset (iteration_order b) = mset (b :: 'a list)"
  shows "iteration_order [x] = [x]"
proof -
  have "mset (iteration_order [x]) = {#x#}" using assms by simp
  then show ?thesis by simp
qed

section \<open>The folded output\<close>

text \<open>
  C1 (as amended). For every sequence of snapshots whose frame sequences are all
  non-empty, and every iteration order of the bucket table, \<open>PrintFrames\<close> writes, after
  the optional idle line, exactly one line per distinct frame sequence: the frames
  joined by \<open>;\<close>, root first, a space, and the number of snapshots with exactly that
  frame sequence. (The vector holds fewer than \<open>2^64\<close> snapshots, so no count wraps.)
\<close>

theorem PrintFrames_one_line_per_stack:
  fixes css :: "'f FrameTS list"
  assumes perm: "\<forall>b. mset (iteration_order b) = mset (b :: 'f buckets_t)"
    and nonempty: "[] \<notin> set (map frames css)"
    and len: "length css < 2 ^ 64"
  shows "\<exists>keys. distinct keys \<and> set keys = frames ` set css \<and>
           cout_buf (PrintFrames sh iteration_order css n os) =
             cout_buf os @
             (if n = 0 then [] else ''(idle) '' @ show_size_t n @ ''\<newline>'') @
             concat (map (\<lambda>k. folded_line sh k (count_list (map frames css) k)) keys)"
proof -
  from nonempty have "\<forall>c \<in> set css. frames c \<noteq> []" by (metis imageI list.set_map)
  from PrintFrames_cout [OF perm this len, of sh n os] show ?thesis by blast
qed

theorem PrintFrames_one_line_per_stack_witness:
  "(\<forall>b. mset (id b) = mset (b :: string buckets_t)) \<and>
   [] \<notin> set (map frames demo_stacks) \<and>
   length demo_stacks < 2 ^ 64 \<and>
   (\<exists>keys. distinct keys \<and> set keys = frames ` set demo_stacks \<and>
      cout_buf (PrintFrames id id demo_stacks 2 no_output) =
        cout_buf no_output @
        (if (2 :: size_t) = 0 then [] else ''(idle) '' @ show_size_t 2 @ ''\<newline>'') @
        concat (map (\<lambda>k. folded_line id k (count_list (map frames demo_stacks) k)) keys))"
proof -
  have h1: "\<forall>b. mset (id b) = mset (b :: string buckets_t)" by simp
  have h2: "[] \<notin> set (map frames demo_stacks)" by (simp add: demo_stacks_def)
  have h3: "length demo_stacks < 2 ^ 64" by (simp add: demo_stacks_def)
  from PrintFrames_one_line_per_stack [OF h1 h2 h3, of id 2 no_output] h1 h2 h3
  show ?thesis by blast
qed

text \<open>
  The claim as first stated, for every sequence of snapshots, fails on a snapshot with
  an empty frame sequence: the only distinct frame sequence gets no line, and
  \<open>fatal error\<close> goes to the standard error.
\<close>

theorem PrintFrames_empty_stack_counterexample:
  "cout_buf (PrintFrames id id [\<lparr>ts = 0, frames = ([] :: string list)\<rparr>] 0 no_output) = [] \<and>
   cerr_buf (PrintFrames id id [\<lparr>ts = 0, frames = ([] :: string list)\<rparr>] 0 no_output) = ''fatal error\<newline>'' \<and>
   cout_buf (PrintFrames id id [\<lparr>ts = 0, frames = ([] :: string list)\<rparr>] 0 no_output) \<noteq>
     folded_line id ([] :: string list) 1"
  by (simp add: PrintFrames_def fill_buckets_def bucket_step_def no_output_def folded_line_def)

section \<open>Root-first rendering\<close>

text \<open>
  C2 (as amended). For the leaf-first frame sequence \<open>[f0, f1, f2]\<close> the folded output
  is the line \<open>f2;f1;f0 1\<close>, and the timestamped output renders the stack root first too,
  but with a \<open>;\<close> after every frame, the last included: \<open>f2;f1;f0;\<close>.
\<close>

theorem root_first_rendering:
  fixes f0 :: 'f
  assumes "\<forall>b. mset (iteration_order b) = mset (b :: 'f buckets_t)"
  shows "cout_buf (PrintFrames sh iteration_order [\<lparr>ts = t, frames = [f0, f1, f2]\<rparr>] 0 os) =
           cout_buf os @ sh f2 @ '';'' @ sh f1 @ '';'' @ sh f0 @ '' 1\<newline>'' \<and>
         cout_buf (PrintFramesTS sh per_us [\<lparr>ts = t, frames = [f0, f1, f2]\<rparr>] os) =
           cout_buf os @ show_long (micros per_us t) @ ''\<newline>'' @
           sh f2 @ '';'' @ sh f1 @ '';'' @ sh f0 @ '';\<newline>''"
proof -
  have "iteration_order [([f0, f1, f2], 1 :: size_t)] = [([f0, f1, f2], 1)]"
    using assms by (rule perm_single)
  then show ?thesis
    by (simp add: PrintFrames_def fill_buckets_def bucket_step_def show_size_t_1)
qed

theorem root_first_rendering_witness:
  "(\<forall>b. mset (rev b) = mset (b :: string buckets_t)) \<and>
   cout_buf (PrintFrames id rev [\<lparr>ts = 7, frames = [''f0'', ''f1'', ''f2'']\<rparr>] 0 no_output) =
     ''f2;f1;f0 1\<newline>'' \<and>
   cout_buf (PrintFramesTS id 1 [\<lparr>ts = 7, frames = [''f0'', ''f1'', ''f2'']\<rparr>] no_output) =
     ''7\<newline>f2;f1;f0;\<newline>''"
proof -
  have h: "\<forall>b. mset (rev b) = mset (b :: string buckets_t)" by simp
  have s: "show_long (micros 1 7) = ''7''"
    by (simp add: micros_def show_long_nonneg show_nat_digit digit_char_def)
  from root_first_rendering [OF h, of id 7 "''f0''" "''f1''" "''f2''" no_output 1] h s
  show ?thesis by (simp add: no_output_def)
qed

text \<open>
  The claim as first stated has the timestamped output render the stack as \<open>f2;f1;f0\<close>;
  the line written ends in a separator.
\<close>

theorem PrintFramesTS_trailing_separator_counterexample:
  "cout_buf (PrintFramesTS id 1 [\<lparr>ts = 0, frames = [''f0'', ''f1'', ''f2'']\<rparr>] no_output) =
     ''0\<newline>f2;f1;f0;\<newline>'' \<and>
   cout_buf (PrintFramesTS id 1 [\<lparr>ts = 0, frames = [''f0'', ''f1'', ''f2'']\<rparr>] no_output) \<noteq>
     ''0\<newline>'' @ root_first id [''f0'', ''f1'', ''f2''] @ ''\<newline>''"
  by (simp add: no_output_def root_first_def micros_def show_long_def show_nat_digit digit_char_def)

section \<open>The timestamped output\<close>

text \<open>
  C3 (as amended). In timestamped mode the output is, for every snapshot in order, the
  microsecond count of its time point on a line of its own, then either \<open>(idle)\<close>, for an
  empty frame sequence, or the root-first stack with a \<open>;\<close> after every frame. For two
  snapshots at \<open>T0\<close> and \<open>T0 + D\<close> with frame sequences \<open>[]\<close> and \<open>[a, b]\<close> that is the
  microsecond value of \<open>T0\<close>, \<open>(idle)\<close>, the microsecond value of \<open>T0 + D\<close>, and \<open>b;a;\<close>.
\<close>

theorem PrintFramesTS_format:
  "cout_buf (PrintFramesTS sh per_us css os) = cout_buf os @ concat (map (ts_block sh per_us) css) \<and>
   cout_buf (PrintFramesTS sh per_us [\<lparr>ts = T0, frames = []\<rparr>, \<lparr>ts = T0 + D, frames = [a, b]\<rparr>] os) =
     cout_buf os @ show_long (micros per_us T0) @ ''\<newline>(idle)\<newline>'' @
     show_long (micros per_us (T0 + D)) @ ''\<newline>'' @ sh b @ '';'' @ sh a @ '';\<newline>''"
  by (simp add: PrintFramesTS_cout ts_block_def root_first_def)

text \<open>
  The claim as first stated has \<open>b;a\<close> for the second snapshot. With a nanosecond clock,
  \<open>T0\<close> 5 microseconds and \<open>D\<close> 37 microseconds:
\<close>

theorem PrintFramesTS_literal_counterexample:
  "cout_buf (PrintFramesTS id 1000
      [\<lparr>ts = 5000, frames = []\<rparr>, \<lparr>ts = 5000 + 37000, frames = [''a'', ''b'']\<rparr>]
      no_output) = ''5\<newline>(idle)\<newline>42\<newline>b;a;\<newline>'' \<and>
   cout_buf (PrintFramesTS id 1000
      [\<lparr>ts = 5000, frames = []\<rparr>, \<lparr>ts = 5000 + 37000, frames = [''a'', ''b'']\<rparr>]
      no_output) \<noteq>
     show_long (micros 1000 5000) @ ''\<newline>(idle)\<newline>'' @
     show_long (micros 1000 (5000 + 37000)) @ ''\<newline>'' @
     root_first id [''a'', ''b''] @ ''\<newline>''"
  by (simp add: no_output_def root_first_def micros_def show_long_nonneg show_nat_step
        show_nat_digit digit_char_def)

section \<open>Facts about the sampling run\<close>

lemma logged_simps [simp]:
  "calls (logged c st) = calls st @ [c]"
  "idle (logged c st) = idle st"
  "call_stacks (logged c st) = call_stacks st"
  by (simp_all add: logged_def)

lemma sampling_loop_invariant:
  assumes "sampling_loop opts p pid ta iv en tks st = Some (r, st')"
    and "I st"
    and "\<And>t s s'. t \<in> set tks \<Longrightarrow> I s \<Longrightarrow> loop_body opts p pid ta iv en t s = Inr s' \<Longrightarrow> I s'"
    and "\<And>t s. t \<in> set tks \<Longrightarrow> I s \<Longrightarrow> loop_body opts p pid ta iv en t s = Inl (r, st') \<Longrightarrow> Q"
  shows Q
  using assms
proof (induction tks arbitrary: st)
  case Nil
  then show ?case by simp
next
  case (Cons t tks)
  show ?case
  proof (cases "loop_body opts p pid ta iv en t st")
    case (Inl left)
    with Cons.prems(1) have "left = (r, st')" by simp
    with Inl Cons.prems(2) Cons.prems(4) [of t st] show ?thesis by simp
  next
    case (Inr s')
    with Cons.prems(1) have run: "sampling_loop opts p pid ta iv en tks s' = Some (r, st')" by simp
    have "I s'" using Cons.prems(3) [of t st s'] Cons.prems(2) Inr by simp
    show ?thesis
    proof (rule Cons.IH [OF run \<open>I s'\<close>])
      fix u s s'' assume "u \<in> set tks" "I s" "loop_body opts p pid ta iv en u s = Inr s''"
      then show "I s''" using Cons.prems(3) [of u s s''] by simp
    next
      fix u s assume "u \<in> set tks" "I s" "loop_body opts p pid ta iv en u s = Inl (r, st')"
      then show Q using Cons.prems(4) [of u s] by simp
    qed
  qed
qed

lemma idle_ticks_simps [simp]:
  "idle_ticks [] = 0"
  "idle_ticks (c # cs) = (if is_idle_tick c then 1 else 0) + idle_ticks cs"
  "idle_ticks (cs @ ds) = idle_ticks cs + idle_ticks ds"
  by (simp_all add: idle_ticks_def)

lemma stack_ticks_simps [simp]:
  "stack_ticks [] = 0"
  "stack_ticks (c # cs) = (if is_stack_tick c then 1 else 0) + stack_ticks cs"
  "stack_ticks (cs @ ds) = stack_ticks cs + stack_ticks ds"
  by (simp_all add: stack_ticks_def)

lemma loop_body_idle:
  assumes "idle_counted opts s"
  shows "loop_body opts p pid ta iv en t s = Inr s' \<Longrightarrow> idle_counted opts s'"
    and "loop_body opts p pid ta iv en t s = Inl (r, s') \<Longrightarrow> idle_counted opts s'"
  using assms
  by (auto simp: loop_body_def take_sample_def Let_def idle_counted_def
           split: sum.splits option.splits if_splits prod.splits)


lemma loop_body_snapshots:
  assumes "snapshots_counted opts s"
  shows "loop_body opts p pid ta iv en t s = Inr s' \<Longrightarrow> snapshots_counted opts s'"
    and "loop_body opts p pid ta iv en t s = Inl (r, s') \<Longrightarrow> snapshots_counted opts s'"
  using assms
  by (auto simp: loop_body_def take_sample_def Let_def snapshots_counted_def
           split: sum.splits option.splits if_splits prod.splits)

lemma loop_body_nonempty:
  assumes "[] \<notin> set (map frames (call_stacks s))" and "\<not> include_ts opts"
    and "GetStack_r t \<noteq> Inr []"
  shows "loop_body opts p pid ta iv en t s = Inr s' \<Longrightarrow> [] \<notin> set (map frames (call_stacks s'))"
    and "loop_body opts p pid ta iv en t s = Inl (r, s') \<Longrightarrow> [] \<notin> set (map frames (call_stacks s'))"
  using assms
  by (auto simp: loop_body_def take_sample_def Let_def
           split: sum.splits option.splits if_splits prod.splits)

lemma loop_body_head:
  assumes "calls s \<noteq> [] \<and> hd (calls s) = c"
  shows "loop_body opts p pid ta iv en t s = Inr s' \<Longrightarrow> calls s' \<noteq> [] \<and> hd (calls s') = c"
    and "loop_body opts p pid ta iv en t s = Inl (r, s') \<Longrightarrow> calls s' \<noteq> [] \<and> hd (calls s') = c"
  using assms
  by (auto simp: loop_body_def take_sample_def Let_def
           split: sum.splits option.splits if_splits prod.splits)

lemma loop_body_order:
  assumes "foldl order_step (False, True) (calls s) = (True, True)"
  shows "loop_body opts p pid ta iv en t s = Inr s' \<Longrightarrow>
           foldl order_step (False, True) (calls s') = (True, True)"
    and "loop_body opts p pid ta iv en t s = Inl (r, s') \<Longrightarrow>
           snd (foldl order_step (False, True) (calls s')) \<and>
           (r = None \<longrightarrow> fst (foldl order_step (False, True) (calls s'))) \<and>
           (\<forall>e. r = Some e \<longrightarrow> thrown_by (last (calls s')) = Some e)"
  using assms
  by (auto simp: loop_body_def take_sample_def Let_def
           split: sum.splits option.splits if_splits prod.splits)

lemma fst_order_step: "fst (foldl order_step (a, ok) cs) = foldl attach_step a cs"
proof (induction cs arbitrary: a ok)
  case Nil
  then show ?case by simp
next
  case (Cons c cs)
  then show ?case by (cases c) simp_all
qed

lemma attached_order: "attached cs = fst (foldl order_step (False, True) cs)"
  by (simp add: attached_def fst_order_step)


lemma sample_all_cases:
  assumes "sample_all opts p pid w = Some (r, st)"
  obtains
    (attach) e where "attach_r w = Some e" "r = Some e"
      "st = \<lparr>call_stacks = [], idle = 0, calls = [Call_PtraceAttach pid (Some e)]\<rparr>"
  | (namespace) e where "attach_r w = None" "Namespace_r w = Some e" "r = Some e"
      "st = \<lparr>call_stacks = [], idle = 0,
              calls = [Call_PtraceAttach pid None, Call_Namespace pid (Some e)]\<rparr>"
  | (tstate) e where "attach_r w = None" "Namespace_r w = None" "ThreadStateAddr_r w = Inl e"
      "r = Some e"
      "st = \<lparr>call_stacks = [], idle = 0,
              calls = [Call_PtraceAttach pid None, Call_Namespace pid None,
                       Call_ThreadStateAddr pid (Inl e)]\<rparr>"
  | (loop) ta where "attach_r w = None" "Namespace_r w = None" "ThreadStateAddr_r w = Inr ta"
      "sampling_loop opts p pid ta (sample_rate opts)
         (wrap_long (start_r w + wrap_long (seconds opts * p))) (ticks w)
         \<lparr>call_stacks = [], idle = 0,
          calls = [Call_PtraceAttach pid None, Call_Namespace pid None,
                   Call_ThreadStateAddr pid (Inr ta), Call_now (start_r w)]\<rparr> = Some (r, st)"
  using assms
  by (auto simp: sample_all_def Let_def logged_def split: option.splits sum.splits)

lemma sampling_loop_idle_counted:
  assumes "sampling_loop opts p pid ta iv en tks st = Some (r, st')" and "idle_counted opts st"
  shows "idle_counted opts st'"
  using assms(1)
proof (rule sampling_loop_invariant [where I = "idle_counted opts"])
  show "idle_counted opts st" by fact
qed (blast intro: loop_body_idle)+

lemma sampling_loop_snapshots_counted:
  assumes "sampling_loop opts p pid ta iv en tks st = Some (r, st')"
    and "snapshots_counted opts st"
  shows "snapshots_counted opts st'"
  using assms(1)
proof (rule sampling_loop_invariant [where I = "snapshots_counted opts"])
  show "snapshots_counted opts st" by fact
qed (blast intro: loop_body_snapshots)+

lemma sampling_loop_nonempty:
  assumes "sampling_loop opts p pid ta iv en tks st = Some (r, st')"
    and "[] \<notin> set (map frames (call_stacks st))" and "\<not> include_ts opts"
    and gs: "Inr [] \<notin> set (map GetStack_r tks)"
  shows "[] \<notin> set (map frames (call_stacks st'))"
  using assms(1)
proof (rule sampling_loop_invariant [where I = "\<lambda>s. [] \<notin> set (map frames (call_stacks s))"])
  show "[] \<notin> set (map frames (call_stacks st))" by fact
next
  fix t s s'
  assume t: "t \<in> set tks" and s: "[] \<notin> set (map frames (call_stacks s))"
    and b: "loop_body opts p pid ta iv en t s = Inr s'"
  from gs t have "GetStack_r t \<noteq> Inr []" by (metis imageI list.set_map)
  from loop_body_nonempty(1) [OF s assms(3) this b]
  show "[] \<notin> set (map frames (call_stacks s'))" .
next
  fix t s
  assume t: "t \<in> set tks" and s: "[] \<notin> set (map frames (call_stacks s))"
    and b: "loop_body opts p pid ta iv en t s = Inl (r, st')"
  from gs t have "GetStack_r t \<noteq> Inr []" by (metis imageI list.set_map)
  from loop_body_nonempty(2) [OF s assms(3) this b]
  show "[] \<notin> set (map frames (call_stacks st'))" .
qed

lemma sampling_loop_head:
  assumes "sampling_loop opts p pid ta iv en tks st = Some (r, st')"
    and "calls st \<noteq> [] \<and> hd (calls st) = c"
  shows "calls st' \<noteq> [] \<and> hd (calls st') = c"
  using assms(1)
proof (rule sampling_loop_invariant [where I = "\<lambda>s. calls s \<noteq> [] \<and> hd (calls s) = c"])
  show "calls st \<noteq> [] \<and> hd (calls st) = c" by fact
next
  fix t s s'
  assume "t \<in> set tks"
    and "calls s \<noteq> [] \<and> hd (calls s) = c" "loop_body opts p pid ta iv en t s = Inr s'"
  from this(2,3) show "calls s' \<noteq> [] \<and> hd (calls s') = c" by (rule loop_body_head(1))
next
  fix t s
  assume "t \<in> set tks"
    and "calls s \<noteq> [] \<and> hd (calls s) = c" "loop_body opts p pid ta iv en t s = Inl (r, st')"
  from this(2,3) show "calls st' \<noteq> [] \<and> hd (calls st') = c" by (rule loop_body_head(2))
qed

lemma sampling_loop_order:
  assumes "sampling_loop opts p pid ta iv en tks st = Some (r, st')"
    and "foldl order_step (False, True) (calls st) = (True, True)"
  shows "snd (foldl order_step (False, True) (calls st')) \<and>
         (r = None \<longrightarrow> fst (foldl order_step (False, True) (calls st'))) \<and>
         (\<forall>e. r = Some e \<longrightarrow> thrown_by (last (calls st')) = Some e)"
  using assms(1)
proof (rule sampling_loop_invariant
         [where I = "\<lambda>s. foldl order_step (False, True) (calls s) = (True, True)"])
  show "foldl order_step (False, True) (calls st) = (True, True)" by fact
next
  fix t s s'
  assume "t \<in> set tks"
    and "foldl order_step (False, True) (calls s) = (True, True)"
    "loop_body opts p pid ta iv en t s = Inr s'"
  from this(2,3) show "foldl order_step (False, True) (calls s') = (True, True)"
    by (rule loop_body_order(1))
next
  fix t s
  assume "t \<in> set tks"
    and "foldl order_step (False, True) (calls s) = (True, True)"
    "loop_body opts p pid ta iv en t s = Inl (r, st')"
  from this(2,3) show "snd (foldl order_step (False, True) (calls st')) \<and>
         (r = None \<longrightarrow> fst (foldl order_step (False, True) (calls st'))) \<and>
         (\<forall>e. r = Some e \<longrightarrow> thrown_by (last (calls st')) = Some e)"
    by (rule loop_body_order(2))
qed

lemma sample_all_idle_counted:
  assumes "sample_all opts p pid w = Some (r, st)"
  shows "idle_counted opts st"
  using assms
proof (cases rule: sample_all_cases)
  case (loop ta)
  show ?thesis
    by (rule sampling_loop_idle_counted [OF loop(4)]) (simp add: idle_counted_def)
qed (simp_all add: idle_counted_def)

lemma sample_all_snapshots_counted:
  assumes "sample_all opts p pid w = Some (r, st)"
  shows "snapshots_counted opts st"
  using assms
proof (cases rule: sample_all_cases)
  case (loop ta)
  show ?thesis
    by (rule sampling_loop_snapshots_counted [OF loop(4)]) (simp add: snapshots_counted_def)
qed (simp_all add: snapshots_counted_def)

lemma sample_all_nonempty:
  assumes "sample_all opts p pid w = Some (r, st)" and "\<not> include_ts opts"
    and "Inr [] \<notin> set (map GetStack_r (ticks w))"
  shows "[] \<notin> set (map frames (call_stacks st))"
  using assms(1)
proof (cases rule: sample_all_cases)
  case (loop ta)
  show ?thesis
    by (rule sampling_loop_nonempty [OF loop(4) _ assms(2) assms(3)]) simp
qed simp_all

lemma sample_all_head:
  assumes "sample_all opts p pid w = Some (r, st)"
  shows "calls st \<noteq> [] \<and> hd (calls st) = Call_PtraceAttach pid (attach_r w)"
  using assms
proof (cases rule: sample_all_cases)
  case (loop ta)
  show ?thesis
    by (rule sampling_loop_head [OF loop(4)]) (simp add: loop)
qed simp_all

lemma sample_all_order:
  assumes "sample_all opts p pid w = Some (r, st)"
  shows "orderly (calls st) \<and> (r = None \<longrightarrow> attached (calls st)) \<and>
         (\<forall>e. r = Some e \<longrightarrow> thrown_by (last (calls st)) = Some e)"
  using assms
proof (cases rule: sample_all_cases)
  case (loop ta)
  show ?thesis
    unfolding orderly_def attached_order
    by (rule sampling_loop_order [OF loop(4)]) simp
qed (simp_all add: orderly_def attached_def)

section \<open>Facts about main\<close>

lemma strtol_1234: "strtol ''1234'' = 1234"
  by (simp add: strtol_def subject_digits_def skip_sign_def isspace_def isdigit_def digit_val_def
        LONG_MAX_def LONG_MIN_def Let_def)

lemma early_exit_run:
  "sample_all (default_options\<lparr>seconds := 10000\<rparr>) 1000 1234 early_exit_world =
     Some (Some (PtraceException ''No such process''), early_exit_locals)"
  by (simp add: sample_all_def early_exit_world_def world_of_def stack_tick_def gone_tick_def
        loop_body_def wrap_long_def take_sample_def logged_def Let_def default_options_def early_exit_locals_def)

lemma early_exit_print:
  "PrintFrames id id (call_stacks early_exit_locals) 0 no_output =
     \<lparr>cout_buf = ''main;f 2\<newline>main 1\<newline>'', cerr_buf = []\<rparr>"
  by (simp add: early_exit_locals_def PrintFrames_def fill_buckets_def bucket_step_def
        no_output_def cout_def show_size_t_def show_nat_digit digit_char_def)

lemma getopt_loop_cout:
  "getopt_loop P B gs opts os = Inr (opts', os') \<Longrightarrow> cout_buf os' = cout_buf os"
proof (induction gs arbitrary: opts os)
  case Nil
  then show ?case by simp
next
  case (Cons c gs)
  then show ?case
    by (cases c) (auto split: option.splits)
qed

lemma getopt_loop_no_cout:
  "getopt_loop P B gs opts no_output = Inr (opts', os') \<Longrightarrow> cout_buf os' = []"
  using getopt_loop_cout [of P B gs opts no_output opts' os'] by (simp add: no_output_def)

lemma main_sampled:
  assumes "getopt_loop (PACKAGE_STRING b) (kBuildNote b) gs default_options no_output = Inr (opts, os)"
    and "pid_t_min \<le> strtol arg" and "strtol arg \<le> pid_t_max"
  shows "main b gs [arg] w =
           (case sample_all opts (clock_per_us b) (strtol arg) w of
              None \<Rightarrow> None
            | Some (None, st) \<Rightarrow>
                Some \<lparr>run_streams = emit b opts st os, run_status = Exit 0, run_calls = calls st\<rparr>
            | Some (Some (PtraceException msg), st) \<Rightarrow>
                if call_stacks st \<noteq> [] \<or> idle st \<noteq> 0
                then Some \<lparr>run_streams = emit b opts st os, run_status = Exit 0,
                           run_calls = calls st\<rparr>
                else Some \<lparr>run_streams = cerr (msg @ ''\<newline>'') os, run_status = Exit 1,
                           run_calls = calls st\<rparr>
            | Some (Some (StdException msg), st) \<Rightarrow>
                Some \<lparr>run_streams = cerr (msg @ ''\<newline>'') os, run_status = Exit 1,
                      run_calls = calls st\<rparr>)"
  using assms by (simp add: main_def Let_def)

lemma main_out_of_range:
  assumes "getopt_loop (PACKAGE_STRING b) (kBuildNote b) gs default_options no_output = Inr (opts, os)"
    and "strtol arg > pid_t_max \<or> strtol arg < pid_t_min"
  shows "main b gs [arg] w =
           Some \<lparr>run_streams =
                   cerr (''PID '' @ show_long (strtol arg) @ '' is out of valid PID range.\<newline>'') os,
                 run_status = Exit 1, run_calls = []\<rparr>"
  using assms by (auto simp: main_def Let_def)

lemma PrintFrames_idle_split:
  "cout_buf (PrintFrames sh iteration_order css n os) =
     cout_buf os @ (if n = 0 then [] else ''(idle) '' @ show_size_t n @ ''\<newline>'') @
     cout_buf (PrintFrames sh iteration_order css 0 no_output)"
  using print_buckets_cout_shift
          [of sh "iteration_order (fill_buckets css)"
              "cout (''(idle) '' @ show_size_t n @ ''\<newline>'') os"]
        print_buckets_cout_shift [of sh "iteration_order (fill_buckets css)" os]
  by (simp add: PrintFrames_def Let_def)

lemma of_nat_size_t_zero:
  assumes "k < 2 ^ 64"
  shows "(of_nat k :: size_t) = 0 \<longleftrightarrow> k = 0"
proof
  assume "(of_nat k :: size_t) = 0"
  then have "unat (of_nat k :: size_t) = 0" by simp
  with unat_count [OF assms] show "k = 0" by simp
next
  assume "k = 0"
  then show "(of_nat k :: size_t) = 0" by simp
qed

section \<open>The idle line of the folded output\<close>

text \<open>
  C4. In folded mode, for a run that exits with code 0, the standard output is the idle
  line followed by the stack lines. With idle time excluded there is no idle line,
  however many idle ticks the run saw; with idle time included and at least one idle
  tick, the output begins with \<open>(idle) COUNT\<close>, where \<open>COUNT\<close> is the number of idle
  ticks; with no idle tick there is no idle line. (With idle time included, fewer than
  \<open>2^64\<close> idle ticks, so the counter does not wrap.)
\<close>

theorem folded_idle_line:
  assumes g: "getopt_loop (PACKAGE_STRING b) (kBuildNote b) gs default_options no_output = Inr (opts, os)"
    and folded: "\<not> include_ts opts"
    and run: "sample_all opts (clock_per_us b) (strtol arg) w = Some (r, st)"
    and m: "main b gs [arg] w = Some res"
    and ok: "run_status res = Exit 0"
    and small: "include_idle opts \<longrightarrow> idle_ticks (calls st) < 2 ^ 64"
  shows "cout_buf (run_streams res) =
           (if include_idle opts \<and> 0 < idle_ticks (calls st)
            then idle_line (idle_ticks (calls st)) else []) @
           cout_buf (PrintFrames (frame_out b) (bucket_order b) (call_stacks st) 0 no_output)"
proof -
  have range: "pid_t_min \<le> strtol arg \<and> strtol arg \<le> pid_t_max"
  proof (rule ccontr)
    assume "\<not> ?thesis"
    then have "strtol arg > pid_t_max \<or> strtol arg < pid_t_min" by auto
    from main_out_of_range [OF g this, of w] m ok show False by auto
  qed
  have "run_streams res = emit b opts st os"
    using main_sampled [OF g, of arg w] range run m ok
    by (auto split: option.splits exn.splits if_splits)
  then have out: "cout_buf (run_streams res) =
      cout_buf (PrintFrames (frame_out b) (bucket_order b) (call_stacks st) (idle st) os)"
    using folded by (simp add: emit_def)
  have os: "cout_buf os = []" using g by (rule getopt_loop_no_cout)
  have cnt: "idle st = (if include_idle opts then of_nat (idle_ticks (calls st)) else 0)"
    using sample_all_idle_counted [OF run] by (simp add: idle_counted_def)
  show ?thesis
  proof (cases "include_idle opts")
    case True
    with small have k: "idle_ticks (calls st) < 2 ^ 64" by simp
    show ?thesis
      unfolding out
      by (subst PrintFrames_idle_split)
         (simp add: os cnt True idle_line_def show_size_t_def unat_count [OF k]
            of_nat_size_t_zero [OF k])
  next
    case False
    show ?thesis
      unfolding out
      by (subst PrintFrames_idle_split) (simp add: os cnt False)
  qed
qed

lemma pid_1234_in_range: "pid_t_min \<le> 1234 \<and> 1234 \<le> pid_t_max"
  by (simp add: pid_t_min_def pid_t_max_def)

lemma mixed_run:
  "sample_all default_options 1000 1234 mixed_world = Some (None, mixed_locals)"
  by (simp add: sample_all_def mixed_world_def world_of_def stack_tick_def idle_tick_def
        loop_body_def wrap_long_def take_sample_def logged_def Let_def default_options_def mixed_locals_def)

lemma mixed_print:
  "PrintFrames id id (call_stacks mixed_locals) (idle mixed_locals) no_output =
     \<lparr>cout_buf = ''(idle) 2\<newline>main 1\<newline>'', cerr_buf = []\<rparr>"
  by (simp add: mixed_locals_def PrintFrames_def fill_buckets_def bucket_step_def
        no_output_def cout_def show_size_t_def show_nat_digit digit_char_def)

lemma mixed_main: "main demo_build [] [''1234''] mixed_world = Some mixed_result"
proof -
  have g: "getopt_loop (PACKAGE_STRING demo_build) (kBuildNote demo_build) [] default_options
             no_output = Inr (default_options, no_output)" by simp
  show ?thesis
    using main_sampled [OF g, of "''1234''" mixed_world] pid_1234_in_range mixed_run mixed_print
    by (simp add: strtol_1234 demo_build_def emit_def default_options_def mixed_result_def)
qed

theorem folded_idle_line_witness:
  "getopt_loop (PACKAGE_STRING demo_build) (kBuildNote demo_build) [] default_options no_output =
     Inr (default_options, no_output) \<and>
   \<not> include_ts default_options \<and>
   sample_all default_options (clock_per_us demo_build) (strtol ''1234'') mixed_world =
     Some (None, mixed_locals) \<and>
   main demo_build [] [''1234''] mixed_world = Some mixed_result \<and>
   run_status mixed_result = Exit 0 \<and>
   idle_ticks (calls mixed_locals) < 2 ^ 64 \<and>
   cout_buf (run_streams mixed_result) =
     (if include_idle default_options \<and> 0 < idle_ticks (calls mixed_locals)
      then idle_line (idle_ticks (calls mixed_locals)) else []) @
     cout_buf (PrintFrames (frame_out demo_build) (bucket_order demo_build)
                 (call_stacks mixed_locals) 0 no_output)"
proof -
  have g: "getopt_loop (PACKAGE_STRING demo_build) (kBuildNote demo_build) [] default_options
             no_output = Inr (default_options, no_output)" by simp
  have f: "\<not> include_ts default_options" by (simp add: default_options_def)
  have r: "sample_all default_options (clock_per_us demo_build) (strtol ''1234'') mixed_world =
             Some (None, mixed_locals)"
    using mixed_run by (simp add: strtol_1234 demo_build_def)
  have k: "run_status mixed_result = Exit 0" by (simp add: mixed_result_def)
  have s: "idle_ticks (calls mixed_locals) < 2 ^ 64" by (simp add: mixed_locals_def)
  then have s': "include_idle default_options \<longrightarrow> idle_ticks (calls mixed_locals) < 2 ^ 64"
    by simp
  from folded_idle_line [OF g f r mixed_main k s'] g f r mixed_main k s
  show ?thesis by blast
qed

section \<open>Idle ticks under idle exclusion\<close>

text \<open>
  C5 (as amended). The loop counts and records idle ticks only when idle time is
  included: then every idle tick is counted, and it is recorded as a timestamped
  snapshot only when timestamps are wanted. When idle exclusion is requested an idle
  tick is neither counted nor recorded, with or without timestamps.
\<close>

theorem idle_tick_accounting:
  assumes "sample_all opts p pid w = Some (r, st)"
  shows "idle st = (if include_idle opts then of_nat (idle_ticks (calls st)) else 0) \<and>
         length (call_stacks st) =
           stack_ticks (calls st) +
           (if include_idle opts \<and> include_ts opts then idle_ticks (calls st) else 0)"
  using sample_all_idle_counted [OF assms] sample_all_snapshots_counted [OF assms]
  by (simp add: idle_counted_def snapshots_counted_def)

theorem idle_tick_accounting_witness:
  "sample_all default_options 1000 1234 mixed_world = Some (None, mixed_locals) \<and>
   idle mixed_locals =
     (if include_idle default_options then of_nat (idle_ticks (calls mixed_locals)) else 0) \<and>
   length (call_stacks mixed_locals) =
     stack_ticks (calls mixed_locals) +
     (if include_idle default_options \<and> include_ts default_options
      then idle_ticks (calls mixed_locals) else 0)"
  using idle_tick_accounting [OF mixed_run] mixed_run by blast

text \<open>
  The claim as first stated fails for \<^verbatim>\<open>-x -t\<close> on a process that is idle at its only
  tick: the tick is not counted and no snapshot is recorded, so nothing is printed.
\<close>

theorem idle_exclusion_counterexample:
  "sample_all (default_options\<lparr>include_idle := False, include_ts := True\<rparr>) 1000 1234
     one_idle_world = Some (None, excluded_idle_locals) \<and>
   idle_ticks (calls excluded_idle_locals) = 1 \<and>
   idle excluded_idle_locals = 0 \<and>
   call_stacks excluded_idle_locals = [] \<and>
   main demo_build [Opt_x, Opt_t] [''1234''] one_idle_world =
     Some \<lparr>run_streams = no_output, run_status = Exit 0, run_calls = calls excluded_idle_locals\<rparr>"
proof -
  have run: "sample_all (default_options\<lparr>include_idle := False, include_ts := True\<rparr>) 1000 1234
     one_idle_world = Some (None, excluded_idle_locals)"
    by (simp add: sample_all_def one_idle_world_def world_of_def idle_tick_def
        loop_body_def wrap_long_def take_sample_def logged_def Let_def default_options_def
        excluded_idle_locals_def)
  have g: "getopt_loop (PACKAGE_STRING demo_build) (kBuildNote demo_build) [Opt_x, Opt_t]
             default_options no_output =
           Inr (default_options\<lparr>include_idle := False, include_ts := True\<rparr>, no_output)"
    by simp
  have m: "main demo_build [Opt_x, Opt_t] [''1234''] one_idle_world =
     Some \<lparr>run_streams = no_output, run_status = Exit 0, run_calls = calls excluded_idle_locals\<rparr>"
    using main_sampled [OF g, of "''1234''" one_idle_world] pid_1234_in_range run
    by (simp add: strtol_1234 demo_build_def emit_def excluded_idle_locals_def)
  show ?thesis using run m by (simp add: excluded_idle_locals_def)
qed

section \<open>The empty bucket\<close>

text \<open>
  C9. \<^verbatim>\<open>GetStack\<close> is declared in \<^verbatim>\<open>frame.h\<close> and is called only with a non-null frame
  address; by the specification it then returns at least one frame, so no script
  answers for it with an empty vector. Under that contract, every frame sequence in the
  snapshot list that the loop builds in folded mode is non-empty, and \<open>PrintFrames\<close>
  never takes its \<open>fatal error\<close> branch on it: it writes nothing to the standard error.
\<close>

theorem folded_snapshots_nonempty:
  fixes st :: "'f locals"
  assumes run: "sample_all opts p pid w = Some (r, st)"
    and folded: "\<not> include_ts opts"
    and contract: "Inr [] \<notin> set (map GetStack_r (ticks w))"
    and perm: "\<forall>b. mset (iteration_order b) = mset (b :: 'f buckets_t)"
  shows "[] \<notin> set (map frames (call_stacks st)) \<and>
         cerr_buf (PrintFrames sh iteration_order (call_stacks st) (idle st) os) = cerr_buf os"
proof -
  have ne: "[] \<notin> set (map frames (call_stacks st))"
    using run folded contract by (rule sample_all_nonempty)
  then have "\<forall>c \<in> set (call_stacks st). frames c \<noteq> []" by (metis imageI list.set_map)
  from PrintFrames_cerr [OF perm this] ne show ?thesis by simp
qed

theorem folded_snapshots_nonempty_witness:
  "sample_all default_options 1000 1234 mixed_world = Some (None, mixed_locals) \<and>
   \<not> include_ts default_options \<and>
   Inr [] \<notin> set (map GetStack_r (ticks mixed_world)) \<and>
   (\<forall>b. mset (rev b) = mset (b :: string buckets_t)) \<and>
   [] \<notin> set (map frames (call_stacks mixed_locals)) \<and>
   cerr_buf (PrintFrames id rev (call_stacks mixed_locals) (idle mixed_locals) no_output) =
     cerr_buf no_output"
proof -
  have f: "\<not> include_ts default_options" by (simp add: default_options_def)
  have c: "Inr [] \<notin> set (map GetStack_r (ticks mixed_world))"
    by (simp add: mixed_world_def world_of_def stack_tick_def idle_tick_def)
  have p: "\<forall>b. mset (rev b) = mset (b :: string buckets_t)" by simp
  from folded_snapshots_nonempty [OF mixed_run f c p, of id no_output] mixed_run f c p
  show ?thesis by blast
qed

section \<open>Facts about the snapshots and the protocol\<close>

lemma PrintFramesTS_cerr: "cerr_buf (PrintFramesTS sh p cs os) = cerr_buf os"
  by (induction cs arbitrary: os) (simp_all add: Let_def print_each_cerr)

lemma loop_body_snapshots_of:
  assumes "snap_state opts (calls s) = (False, t0, call_stacks s)"
  shows "loop_body opts p pid ta iv en t s = Inr s' \<Longrightarrow>
           \<exists>t1. snap_state opts (calls s') = (False, t1, call_stacks s')"
    and "loop_body opts p pid ta iv en t s = Inl (r, s') \<Longrightarrow>
           \<exists>t1. snap_state opts (calls s') = (False, t1, call_stacks s')"
  using assms
  by (auto simp: loop_body_def take_sample_def Let_def snap_state_def snap_step_def
           split: sum.splits option.splits if_splits prod.splits)

lemma loop_body_phase:
  assumes "phase_of opts p pid (calls s) = At_tick ta en"
  shows "loop_body opts p pid ta (sample_rate opts) en t s = Inr s' \<Longrightarrow>
           phase_of opts p pid (calls s') = At_tick ta en"
    and "loop_body opts p pid ta (sample_rate opts) en t s = Inl (r, s') \<Longrightarrow>
           ended_as (phase_of opts p pid (calls s')) r"
  using assms
  by (cases "FirstFrameAddr_r t"; cases "GetStack_r t"; cases "PtraceDetach_r t";
      cases "PtraceAttach_r t";
      auto simp: loop_body_def take_sample_def Let_def phase_of_def phase_step_def
                 deadline_reached_def
           split: if_splits)+

lemma sampling_loop_snapshots_of:
  assumes "sampling_loop opts p pid ta iv en tks st = Some (r, st')"
    and "\<exists>t0. snap_state opts (calls st) = (False, t0, call_stacks st)"
  shows "\<exists>t1. snap_state opts (calls st') = (False, t1, call_stacks st')"
  using assms(1)
proof (rule sampling_loop_invariant
         [where I = "\<lambda>s. \<exists>t0. snap_state opts (calls s) = (False, t0, call_stacks s)"])
  show "\<exists>t0. snap_state opts (calls st) = (False, t0, call_stacks st)" by fact
next
  fix t s s'
  assume "t \<in> set tks"
    and "\<exists>t0. snap_state opts (calls s) = (False, t0, call_stacks s)"
    and b: "loop_body opts p pid ta iv en t s = Inr s'"
  then obtain t0 where "snap_state opts (calls s) = (False, t0, call_stacks s)" by blast
  from loop_body_snapshots_of(1) [OF this b]
  show "\<exists>t1. snap_state opts (calls s') = (False, t1, call_stacks s')" .
next
  fix t s
  assume "t \<in> set tks"
    and "\<exists>t0. snap_state opts (calls s) = (False, t0, call_stacks s)"
    and b: "loop_body opts p pid ta iv en t s = Inl (r, st')"
  then obtain t0 where "snap_state opts (calls s) = (False, t0, call_stacks s)" by blast
  from loop_body_snapshots_of(2) [OF this b]
  show "\<exists>t1. snap_state opts (calls st') = (False, t1, call_stacks st')" .
qed

lemma sample_all_snapshots_of:
  assumes "sample_all opts p pid w = Some (r, st)"
  shows "call_stacks st = snapshots_of opts (calls st)"
proof -
  have "\<exists>t1. snap_state opts (calls st) = (False, t1, call_stacks st)"
    using assms
  proof (cases rule: sample_all_cases)
    case (loop ta)
    show ?thesis
      by (rule sampling_loop_snapshots_of [OF loop(4)])
         (simp add: snap_state_def snap_step_def)
  qed (simp_all add: snap_state_def snap_step_def)
  then show ?thesis by (auto simp: snapshots_of_def)
qed

lemma sampling_loop_phase:
  assumes "sampling_loop opts p pid ta (sample_rate opts) en tks st = Some (r, st')"
    and "phase_of opts p pid (calls st) = At_tick ta en"
  shows "ended_as (phase_of opts p pid (calls st')) r"
  using assms(1)
proof (rule sampling_loop_invariant
         [where I = "\<lambda>s. phase_of opts p pid (calls s) = At_tick ta en"])
  show "phase_of opts p pid (calls st) = At_tick ta en" by fact
next
  fix t s s'
  assume "t \<in> set tks"
    and "phase_of opts p pid (calls s) = At_tick ta en"
      "loop_body opts p pid ta (sample_rate opts) en t s = Inr s'"
  from this(2,3) show "phase_of opts p pid (calls s') = At_tick ta en"
    by (rule loop_body_phase(1))
next
  fix t s
  assume "t \<in> set tks"
    and "phase_of opts p pid (calls s) = At_tick ta en"
      "loop_body opts p pid ta (sample_rate opts) en t s = Inl (r, st')"
  from this(2,3) show "ended_as (phase_of opts p pid (calls st')) r"
    by (rule loop_body_phase(2))
qed

lemma sample_all_phase:
  assumes "sample_all opts p pid w = Some (r, st)"
  shows "ended_as (phase_of opts p pid (calls st)) r"
  using assms
proof (cases rule: sample_all_cases)
  case (loop ta)
  show ?thesis
    by (rule sampling_loop_phase [OF loop(4)]) (simp add: phase_of_def phase_step_def)
qed (simp_all add: phase_of_def phase_step_def)

lemma idle_header:
  assumes "idle_counted opts st"
    and small: "include_idle opts \<longrightarrow> idle_ticks (calls st) < 2 ^ 64"
  shows "(if idle st = 0 then [] else ''(idle) '' @ show_size_t (idle st) @ ''\<newline>'') =
         (if include_idle opts \<and> 0 < idle_ticks (calls st)
          then idle_line (idle_ticks (calls st)) else [])"
proof (cases "include_idle opts")
  case True
  with small have k: "idle_ticks (calls st) < 2 ^ 64" by simp
  from assms(1) True show ?thesis
    by (simp add: idle_counted_def idle_line_def show_size_t_def unat_count [OF k]
          of_nat_size_t_zero [OF k])
next
  case False
  with assms(1) show ?thesis by (simp add: idle_counted_def)
qed

section \<open>Early termination\<close>

text \<open>
  C6. When a \<^verbatim>\<open>PtraceException\<close> ends the sampling after at least one snapshot was
  recorded or the idle counter is nonzero, the run stops at the call that threw, exits
  with code 0, writes nothing to the standard error, and its standard output holds
  everything collected up to then, in the configured format. The snapshots printed are
  those that the log of calls accounts for. In timestamped mode each of them is printed,
  in order, with its microsecond count. In folded mode the output is the idle line, if
  idle ticks were counted, and one line for every distinct stack with the number of
  snapshots that have it. (\<^verbatim>\<open>GetStack\<close> returns at least one frame; fewer than \<open>2^64\<close>
  snapshots and idle ticks.)
\<close>

theorem early_termination_emits:
  fixes b :: "'f build"
  assumes g: "getopt_loop (PACKAGE_STRING b) (kBuildNote b) gs default_options no_output = Inr (opts, os)"
    and lo: "pid_t_min \<le> strtol arg" and hi: "strtol arg \<le> pid_t_max"
    and run: "sample_all opts (clock_per_us b) (strtol arg) w = Some (Some (PtraceException msg), st)"
    and data: "call_stacks st \<noteq> [] \<or> idle st \<noteq> 0"
    and perm: "\<forall>t. mset (bucket_order b t) = mset t"
    and contract: "Inr [] \<notin> set (map GetStack_r (ticks w))"
    and len: "length (snapshots_of opts (calls st)) < 2 ^ 64"
    and small: "include_idle opts \<longrightarrow> idle_ticks (calls st) < 2 ^ 64"
  shows "\<exists>res keys.
           main b gs [arg] w = Some res \<and> run_status res = Exit 0 \<and> run_calls res = calls st \<and>
           thrown_by (last (calls st)) = Some (PtraceException msg) \<and>
           call_stacks st = snapshots_of opts (calls st) \<and>
           run_streams res =
             (if include_ts opts
              then PrintFramesTS (frame_out b) (clock_per_us b) (call_stacks st) os
              else PrintFrames (frame_out b) (bucket_order b) (call_stacks st) (idle st) os) \<and>
           cerr_buf (run_streams res) = cerr_buf os \<and>
           distinct keys \<and> set keys = frames ` set (snapshots_of opts (calls st)) \<and>
           cout_buf (run_streams res) =
             (if include_ts opts
              then concat (map (ts_block (frame_out b) (clock_per_us b))
                             (snapshots_of opts (calls st)))
              else (if include_idle opts \<and> 0 < idle_ticks (calls st)
                    then idle_line (idle_ticks (calls st)) else []) @
                   concat (map (\<lambda>k. folded_line (frame_out b) k
                                       (count_list (map frames (snapshots_of opts (calls st))) k))
                             keys))"
proof -
  define res where "res = \<lparr>run_streams = emit b opts st os, run_status = Exit 0, run_calls = calls st\<rparr>"
  have m: "main b gs [arg] w = Some res"
    using main_sampled [OF g lo hi, of w] run data by (auto simp: res_def)
  have thrown: "thrown_by (last (calls st)) = Some (PtraceException msg)"
    using sample_all_order [OF run] by simp
  have snaps: "call_stacks st = snapshots_of opts (calls st)"
    using run by (rule sample_all_snapshots_of)
  have os: "cout_buf os = []" using g by (rule getopt_loop_no_cout)
  have streams: "run_streams res =
             (if include_ts opts
              then PrintFramesTS (frame_out b) (clock_per_us b) (call_stacks st) os
              else PrintFrames (frame_out b) (bucket_order b) (call_stacks st) (idle st) os)"
    by (simp add: res_def emit_def)
  show ?thesis
  proof (cases "include_ts opts")
    case True
    have "distinct (remdups (map frames (call_stacks st)))"
      and "set (remdups (map frames (call_stacks st))) = frames ` set (call_stacks st)"
      by simp_all
    moreover have "cerr_buf (run_streams res) = cerr_buf os"
      by (simp add: streams True PrintFramesTS_cerr)
    moreover have "cout_buf (run_streams res) =
        concat (map (ts_block (frame_out b) (clock_per_us b)) (call_stacks st))"
      by (simp add: streams True PrintFramesTS_cout os)
    ultimately show ?thesis
      using m thrown snaps streams True unfolding snaps [symmetric]
      by (intro exI [of _ res] exI [of _ "remdups (map frames (call_stacks st))"])
         (simp add: res_def)
  next
    case False
    have "[] \<notin> set (map frames (call_stacks st))"
      using run False contract by (rule sample_all_nonempty)
    then have ne: "\<forall>c \<in> set (call_stacks st). frames c \<noteq> []" by (metis imageI list.set_map)
    have len': "length (call_stacks st) < 2 ^ 64" using len by (simp add: snaps)
    let ?keys = "map fst (bucket_order b (fill_buckets (call_stacks st)))"
    from PrintFrames_cout [OF perm ne len', of "frame_out b" "idle st" os]
    have d: "distinct ?keys" and k: "set ?keys = frames ` set (call_stacks st)"
      and out: "cout_buf (PrintFrames (frame_out b) (bucket_order b) (call_stacks st) (idle st) os) =
           cout_buf os @
           (if idle st = 0 then [] else ''(idle) '' @ show_size_t (idle st) @ ''\<newline>'') @
           concat (map (\<lambda>k. folded_line (frame_out b) k (count_list (map frames (call_stacks st)) k))
                     ?keys)"
      by simp_all
    have hdr: "(if idle st = 0 then [] else ''(idle) '' @ show_size_t (idle st) @ ''\<newline>'') =
         (if include_idle opts \<and> 0 < idle_ticks (calls st)
          then idle_line (idle_ticks (calls st)) else [])"
      using sample_all_idle_counted [OF run] small by (rule idle_header)
    have e: "cerr_buf (run_streams res) = cerr_buf os"
      by (simp add: streams False PrintFrames_cerr [OF perm ne])
    have c: "cout_buf (run_streams res) =
        (if include_idle opts \<and> 0 < idle_ticks (calls st)
         then idle_line (idle_ticks (calls st)) else []) @
        concat (map (\<lambda>k. folded_line (frame_out b) k (count_list (map frames (call_stacks st)) k))
                  ?keys)"
      unfolding streams using False out hdr os by simp
    show ?thesis
      using m thrown snaps streams False d k e c unfolding snaps [symmetric]
      by (intro exI [of _ res] exI [of _ ?keys]) (simp add: res_def)
  qed
qed

lemma early_exit_main:
  "main demo_build [Opt_s (Some 10000)] [''1234''] early_exit_world =
     Some \<lparr>run_streams = \<lparr>cout_buf = ''main;f 2\<newline>main 1\<newline>'', cerr_buf = []\<rparr>,
           run_status = Exit 0, run_calls = calls early_exit_locals\<rparr>"
proof -
  have g: "getopt_loop (PACKAGE_STRING demo_build) (kBuildNote demo_build) [Opt_s (Some 10000)]
     default_options no_output = Inr (default_options\<lparr>seconds := 10000\<rparr>, no_output)"
    by simp
  have d: "call_stacks early_exit_locals \<noteq> []" and i: "idle early_exit_locals = 0"
    by (simp_all add: early_exit_locals_def)
  show ?thesis
    using main_sampled [OF g, of "''1234''" early_exit_world] pid_1234_in_range early_exit_run
      early_exit_print d
    by (simp add: strtol_1234 demo_build_def emit_def default_options_def i)
qed

theorem early_termination_emits_witness:
  "getopt_loop (PACKAGE_STRING demo_build) (kBuildNote demo_build) [Opt_s (Some 10000)]
     default_options no_output = Inr (default_options\<lparr>seconds := 10000\<rparr>, no_output) \<and>
   pid_t_min \<le> strtol ''1234'' \<and> strtol ''1234'' \<le> pid_t_max \<and>
   sample_all (default_options\<lparr>seconds := 10000\<rparr>) (clock_per_us demo_build) (strtol ''1234'')
     early_exit_world = Some (Some (PtraceException ''No such process''), early_exit_locals) \<and>
   call_stacks early_exit_locals \<noteq> [] \<and>
   (\<forall>t. mset (bucket_order demo_build t) = mset t) \<and>
   Inr [] \<notin> set (map GetStack_r (ticks early_exit_world)) \<and>
   length (snapshots_of (default_options\<lparr>seconds := 10000\<rparr>) (calls early_exit_locals)) < 2 ^ 64 \<and>
   idle_ticks (calls early_exit_locals) < 2 ^ 64 \<and>
   main demo_build [Opt_s (Some 10000)] [''1234''] early_exit_world =
     Some \<lparr>run_streams = \<lparr>cout_buf = ''main;f 2\<newline>main 1\<newline>'', cerr_buf = []\<rparr>,
           run_status = Exit 0, run_calls = calls early_exit_locals\<rparr> \<and>
   (\<exists>res keys.
      main demo_build [Opt_s (Some 10000)] [''1234''] early_exit_world = Some res \<and>
      run_status res = Exit 0 \<and> run_calls res = calls early_exit_locals \<and>
      thrown_by (last (calls early_exit_locals)) = Some (PtraceException ''No such process'') \<and>
      call_stacks early_exit_locals =
        snapshots_of (default_options\<lparr>seconds := 10000\<rparr>) (calls early_exit_locals) \<and>
      cerr_buf (run_streams res) = cerr_buf no_output \<and>
      distinct keys \<and>
      set keys = frames ` set (snapshots_of (default_options\<lparr>seconds := 10000\<rparr>)
                                 (calls early_exit_locals)) \<and>
      cout_buf (run_streams res) =
        (if include_ts (default_options\<lparr>seconds := 10000\<rparr>)
         then concat (map (ts_block (frame_out demo_build) (clock_per_us demo_build))
                        (snapshots_of (default_options\<lparr>seconds := 10000\<rparr>)
                           (calls early_exit_locals)))
         else (if include_idle (default_options\<lparr>seconds := 10000\<rparr>) \<and>
                  0 < idle_ticks (calls early_exit_locals)
               then idle_line (idle_ticks (calls early_exit_locals)) else []) @
              concat (map (\<lambda>k. folded_line (frame_out demo_build) k
                                  (count_list
                                     (map frames
                                        (snapshots_of (default_options\<lparr>seconds := 10000\<rparr>)
                                           (calls early_exit_locals))) k))
                        keys)))"
proof -
  have g: "getopt_loop (PACKAGE_STRING demo_build) (kBuildNote demo_build) [Opt_s (Some 10000)]
     default_options no_output = Inr (default_options\<lparr>seconds := 10000\<rparr>, no_output)"
    by simp
  have lo: "pid_t_min \<le> strtol ''1234''" and hi: "strtol ''1234'' \<le> pid_t_max"
    using pid_1234_in_range by (simp_all add: strtol_1234)
  have run: "sample_all (default_options\<lparr>seconds := 10000\<rparr>) (clock_per_us demo_build)
     (strtol ''1234'') early_exit_world =
       Some (Some (PtraceException ''No such process''), early_exit_locals)"
    using early_exit_run by (simp add: strtol_1234 demo_build_def)
  have d: "call_stacks early_exit_locals \<noteq> []" by (simp add: early_exit_locals_def)
  then have data: "call_stacks early_exit_locals \<noteq> [] \<or> idle early_exit_locals \<noteq> 0" by simp
  have perm: "\<forall>t. mset (bucket_order demo_build t) = mset t" by (simp add: demo_build_def)
  have contract: "Inr [] \<notin> set (map GetStack_r (ticks early_exit_world))"
    by (simp add: early_exit_world_def world_of_def stack_tick_def gone_tick_def)
  have len: "length (snapshots_of (default_options\<lparr>seconds := 10000\<rparr>) (calls early_exit_locals))
               < 2 ^ 64"
    using sample_all_snapshots_of [OF early_exit_run, symmetric]
    by (simp add: early_exit_locals_def)
  have k: "idle_ticks (calls early_exit_locals) < 2 ^ 64" by (simp add: early_exit_locals_def)
  then have small: "include_idle (default_options\<lparr>seconds := 10000\<rparr>) \<longrightarrow>
      idle_ticks (calls early_exit_locals) < 2 ^ 64" by simp
  from early_termination_emits [OF g lo hi run data perm contract len small]
    g lo hi run d perm contract len k early_exit_main
  show ?thesis by blast
qed

section \<open>Fatal exits\<close>

text \<open>
  C7 (as amended). When the option loop runs to its end, that is with no \<^verbatim>\<open>-h\<close> and no
  \<^verbatim>\<open>-v\<close> (which print to the standard output and exit with code 0 before any check) and
  no \<^verbatim>\<open>-r\<close> or \<^verbatim>\<open>-s\<close> argument on which \<^verbatim>\<open>std::stod\<close> throws, \<open>main\<close> exits with code 1
  and writes nothing to the standard output when the number of positional arguments is
  not one, when the parsed PID is outside the range of \<^verbatim>\<open>pid_t\<close>, and when an exception is
  thrown while no snapshot has been recorded and the idle counter is 0 (for instance
  when the first attach fails). The standard error gets, after what \<^verbatim>\<open>getopt_long\<close> wrote,
  the usage text, the message about the PID range, or the text of the exception and a
  newline.
\<close>

theorem fatal_exits:
  assumes g: "getopt_loop (PACKAGE_STRING b) (kBuildNote b) gs default_options no_output = Inr (opts, os)"
  shows "(length positional \<noteq> 1 \<longrightarrow>
            main b gs positional w =
              Some \<lparr>run_streams = \<lparr>cout_buf = [], cerr_buf = cerr_buf os @ usage_str\<rparr>,
                    run_status = Exit 1, run_calls = []\<rparr>) \<and>
         (strtol arg > pid_t_max \<or> strtol arg < pid_t_min \<longrightarrow>
            main b gs [arg] w =
              Some \<lparr>run_streams =
                      \<lparr>cout_buf = [],
                       cerr_buf = cerr_buf os @ ''PID '' @ show_long (strtol arg) @
                                  '' is out of valid PID range.\<newline>''\<rparr>,
                    run_status = Exit 1, run_calls = []\<rparr>) \<and>
         (pid_t_min \<le> strtol arg \<and> strtol arg \<le> pid_t_max \<and>
          sample_all opts (clock_per_us b) (strtol arg) w = Some (Some e, st) \<and>
          call_stacks st = [] \<and> idle st = 0 \<longrightarrow>
            main b gs [arg] w =
              Some \<lparr>run_streams = \<lparr>cout_buf = [], cerr_buf = cerr_buf os @ what e @ ''\<newline>''\<rparr>,
                    run_status = Exit 1, run_calls = calls st\<rparr>)"
proof -
  have os: "cout_buf os = []" using g by (rule getopt_loop_no_cout)
  have c: "cerr s os = \<lparr>cout_buf = [], cerr_buf = cerr_buf os @ s\<rparr>" for s
    using os by (simp add: cerr_def)
  show ?thesis
  proof (intro conjI impI)
    assume "length positional \<noteq> 1"
    then show "main b gs positional w =
        Some \<lparr>run_streams = \<lparr>cout_buf = [], cerr_buf = cerr_buf os @ usage_str\<rparr>,
              run_status = Exit 1, run_calls = []\<rparr>"
      using g by (simp add: main_def c)
  next
    assume "strtol arg > pid_t_max \<or> strtol arg < pid_t_min"
    from main_out_of_range [OF g this, of w]
    show "main b gs [arg] w =
        Some \<lparr>run_streams =
                \<lparr>cout_buf = [],
                 cerr_buf = cerr_buf os @ ''PID '' @ show_long (strtol arg) @
                            '' is out of valid PID range.\<newline>''\<rparr>,
              run_status = Exit 1, run_calls = []\<rparr>"
      by (simp add: c)
  next
    assume a: "pid_t_min \<le> strtol arg \<and> strtol arg \<le> pid_t_max \<and>
            sample_all opts (clock_per_us b) (strtol arg) w = Some (Some e, st) \<and>
            call_stacks st = [] \<and> idle st = 0"
    then have lo: "pid_t_min \<le> strtol arg" and hi: "strtol arg \<le> pid_t_max" by simp_all
    show "main b gs [arg] w =
        Some \<lparr>run_streams = \<lparr>cout_buf = [], cerr_buf = cerr_buf os @ what e @ ''\<newline>''\<rparr>,
              run_status = Exit 1, run_calls = calls st\<rparr>"
      using main_sampled [OF g lo hi, of w] a by (cases e) (simp_all add: c)
  qed
qed

lemma strtol_big: "strtol ''99999999999'' = 99999999999"
  by (simp add: strtol_def subject_digits_def skip_sign_def isspace_def isdigit_def digit_val_def
        LONG_MAX_def LONG_MIN_def Let_def)

lemma no_target_run:
  "sample_all default_options 1000 pid no_target_world =
     Some (Some (PtraceException ''Failed to attach to PID 1234''),
           \<lparr>call_stacks = [], idle = 0,
            calls = [Call_PtraceAttach pid (Some (PtraceException ''Failed to attach to PID 1234''))]\<rparr>)"
  by (simp add: sample_all_def no_target_world_def Let_def)

theorem fatal_exits_witness:
  "getopt_loop (PACKAGE_STRING demo_build) (kBuildNote demo_build) [] default_options no_output =
     Inr (default_options, no_output) \<and>
   length ([] :: string list) \<noteq> 1 \<and>
   main demo_build [] [] no_target_world =
     Some \<lparr>run_streams = \<lparr>cout_buf = [], cerr_buf = usage_str\<rparr>, run_status = Exit 1,
           run_calls = []\<rparr> \<and>
   strtol ''99999999999'' > pid_t_max \<and>
   main demo_build [] [''99999999999''] no_target_world =
     Some \<lparr>run_streams =
             \<lparr>cout_buf = [], cerr_buf = ''PID 99999999999 is out of valid PID range.\<newline>''\<rparr>,
           run_status = Exit 1, run_calls = []\<rparr> \<and>
   pid_t_min \<le> strtol ''1234'' \<and> strtol ''1234'' \<le> pid_t_max \<and>
   sample_all default_options (clock_per_us demo_build) (strtol ''1234'') no_target_world =
     Some (Some (PtraceException ''Failed to attach to PID 1234''),
           \<lparr>call_stacks = [], idle = 0,
            calls = [Call_PtraceAttach 1234 (Some (PtraceException ''Failed to attach to PID 1234''))]\<rparr>) \<and>
   main demo_build [] [''1234''] no_target_world =
     Some \<lparr>run_streams = \<lparr>cout_buf = [], cerr_buf = ''Failed to attach to PID 1234\<newline>''\<rparr>,
           run_status = Exit 1,
           run_calls = [Call_PtraceAttach 1234 (Some (PtraceException ''Failed to attach to PID 1234''))]\<rparr>"
proof -
  have g: "getopt_loop (PACKAGE_STRING demo_build) (kBuildNote demo_build) [] default_options
             no_output = Inr (default_options, no_output)" by simp
  have big: "strtol ''99999999999'' > pid_t_max"
    by (simp add: strtol_big pid_t_max_def)
  have lo: "pid_t_min \<le> strtol ''1234''" and hi: "strtol ''1234'' \<le> pid_t_max"
    using pid_1234_in_range by (simp_all add: strtol_1234)
  have run: "sample_all default_options (clock_per_us demo_build) (strtol ''1234'') no_target_world =
     Some (Some (PtraceException ''Failed to attach to PID 1234''),
           \<lparr>call_stacks = [], idle = 0,
            calls = [Call_PtraceAttach 1234 (Some (PtraceException ''Failed to attach to PID 1234''))]\<rparr>)"
    using no_target_run [of 1234] by (simp add: strtol_1234 demo_build_def)
  have sl: "show_long 99999999999 = ''99999999999''"
    by (simp add: show_long_nonneg show_nat_step show_nat_digit digit_char_def)
  from fatal_exits [OF g, of "[]" no_target_world "''99999999999''"]
  have a: "main demo_build [] [] no_target_world =
     Some \<lparr>run_streams = \<lparr>cout_buf = [], cerr_buf = usage_str\<rparr>, run_status = Exit 1,
           run_calls = []\<rparr>"
    and b: "main demo_build [] [''99999999999''] no_target_world =
     Some \<lparr>run_streams =
             \<lparr>cout_buf = [], cerr_buf = ''PID 99999999999 is out of valid PID range.\<newline>''\<rparr>,
           run_status = Exit 1, run_calls = []\<rparr>"
    using big by (simp_all add: no_output_def strtol_big sl)
  from fatal_exits [OF g, of "[]" no_target_world "''1234''"
         "PtraceException ''Failed to attach to PID 1234''"
         "\<lparr>call_stacks = [], idle = 0,
            calls = [Call_PtraceAttach 1234 (Some (PtraceException ''Failed to attach to PID 1234''))]\<rparr>"]
  have c: "main demo_build [] [''1234''] no_target_world =
     Some \<lparr>run_streams = \<lparr>cout_buf = [], cerr_buf = ''Failed to attach to PID 1234\<newline>''\<rparr>,
           run_status = Exit 1,
           run_calls = [Call_PtraceAttach 1234 (Some (PtraceException ''Failed to attach to PID 1234''))]\<rparr>"
    using lo hi run by (simp add: no_output_def)
  show ?thesis using g big lo hi run a b c by simp
qed

text \<open>
  The claim as first stated fails for \<^verbatim>\<open>pyflame -h\<close>: there is no positional argument, and
  the run prints the usage text to the standard output and exits with code 0.
\<close>

theorem help_without_pid_counterexample:
  "length ([] :: string list) \<noteq> 1 \<and>
   main demo_build [Opt_h] [] no_target_world =
     Some \<lparr>run_streams = \<lparr>cout_buf = usage_str, cerr_buf = []\<rparr>, run_status = Exit 0,
           run_calls = []\<rparr>"
  by (simp add: main_def cout_def no_output_def)

section \<open>Attach and detach\<close>

text \<open>
  C8 (as amended). Every run makes its calls in the order of the protocol: attach,
  namespace, thread state, and the clock reading that fixes the end time; then in every
  tick the first frame address, a clock reading and, for a non-null address, the stack,
  all while the target is stopped. Only then does the tick decide: when its clock
  reading plus the interval has reached the end time (in 64-bit arithmetic) the loop
  stops, and no detach follows, so the run ends with the target still attached;
  otherwise the tick detaches, sleeps for the interval while the target runs, attaches
  again, and the next tick begins. When an exception ends the run, the call that threw
  is the last call made: no detach follows it either.
\<close>

theorem sampling_call_order:
  assumes "sample_all opts p pid w = Some (r, st)"
  shows "ended_as (phase_of opts p pid (calls st)) r \<and> orderly (calls st) \<and>
         (r = None \<longrightarrow> attached (calls st)) \<and>
         (\<forall>e. r = Some e \<longrightarrow> thrown_by (last (calls st)) = Some e)"
  using sample_all_phase [OF assms] sample_all_order [OF assms] by simp

text \<open>
  With \<^verbatim>\<open>-s 10000000000\<close> on a nanosecond clock the end time wraps to a negative count,
  and the loop stops after its first tick.
\<close>

lemma wrapped_deadline_run:
  "sample_all (default_options\<lparr>seconds := 10000000000000000\<rparr>) 1000 1234 long_run_world =
     Some (None, long_run_locals)"
  by (simp add: sample_all_def long_run_world_def world_of_def stack_tick_def
        loop_body_def wrap_long_def take_sample_def logged_def Let_def default_options_def
        long_run_locals_def)

theorem sampling_call_order_witness:
  "sample_all default_options 1000 1234 mixed_world = Some (None, mixed_locals) \<and>
   ended_as (phase_of default_options 1000 1234 (calls mixed_locals)) None \<and>
   orderly (calls mixed_locals) \<and> attached (calls mixed_locals) \<and>
   sample_all (default_options\<lparr>seconds := 10000\<rparr>) 1000 1234 early_exit_world =
     Some (Some (PtraceException ''No such process''), early_exit_locals) \<and>
   ended_as (phase_of (default_options\<lparr>seconds := 10000\<rparr>) 1000 1234 (calls early_exit_locals))
     (Some (PtraceException ''No such process'')) \<and>
   orderly (calls early_exit_locals) \<and>
   thrown_by (last (calls early_exit_locals)) = Some (PtraceException ''No such process'') \<and>
   sample_all (default_options\<lparr>seconds := 10000000000000000\<rparr>) 1000 1234 long_run_world =
     Some (None, long_run_locals) \<and>
   ended_as (phase_of (default_options\<lparr>seconds := 10000000000000000\<rparr>) 1000 1234
               (calls long_run_locals)) None \<and>
   attached (calls long_run_locals)"
  using sampling_call_order [OF mixed_run] sampling_call_order [OF early_exit_run]
    sampling_call_order [OF wrapped_deadline_run] mixed_run early_exit_run wrapped_deadline_run
  by simp

text \<open>
  The claim as first stated has a detach on every exit path. A run of one tick that
  ends at the deadline makes no \<^verbatim>\<open>PtraceDetach\<close> call at all and ends attached.
\<close>

theorem no_final_detach_counterexample:
  "main demo_build [] [''1234''] one_stack_world =
     Some \<lparr>run_streams = \<lparr>cout_buf = ''main 1\<newline>'', cerr_buf = []\<rparr>, run_status = Exit 0,
           run_calls = one_stack_calls\<rparr> \<and>
   filter is_detach one_stack_calls = [] \<and>
   attached one_stack_calls"
proof -
  have run: "sample_all default_options 1000 1234 one_stack_world =
      Some (None, \<lparr>call_stacks = [\<lparr>ts = 1000000000, frames = [''main'']\<rparr>], idle = 0,
                   calls = one_stack_calls\<rparr>)"
    by (simp add: sample_all_def one_stack_world_def world_of_def stack_tick_def
        loop_body_def wrap_long_def take_sample_def logged_def Let_def default_options_def
        one_stack_calls_def)
  have pr: "PrintFrames id id [\<lparr>ts = 1000000000, frames = [''main'']\<rparr>] 0 no_output =
      \<lparr>cout_buf = ''main 1\<newline>'', cerr_buf = []\<rparr>"
    by (simp add: PrintFrames_def fill_buckets_def bucket_step_def
        no_output_def cout_def show_size_t_def show_nat_digit digit_char_def)
  have g: "getopt_loop (PACKAGE_STRING demo_build) (kBuildNote demo_build) [] default_options
             no_output = Inr (default_options, no_output)" by simp
  have m: "main demo_build [] [''1234''] one_stack_world =
     Some \<lparr>run_streams = \<lparr>cout_buf = ''main 1\<newline>'', cerr_buf = []\<rparr>, run_status = Exit 0,
           run_calls = one_stack_calls\<rparr>"
    using main_sampled [OF g, of "''1234''" one_stack_world] pid_1234_in_range run pr
    by (simp add: strtol_1234 demo_build_def emit_def default_options_def)
  show ?thesis using m by (simp add: one_stack_calls_def attached_def)
qed

section \<open>A PID that is not a number\<close>

text \<open>
  C10 (as amended). For every positional argument with no decimal digit after its
  optional leading white space and sign (for instance \<open>abc\<close>), \<^verbatim>\<open>strtol\<close> yields 0 and
  reports nothing, 0 passes the range check, and the first thing \<open>main\<close> does is
  \<^verbatim>\<open>PtraceAttach(0)\<close>: the argument is not rejected as a usage error. No argument is
  rejected for not being a number: whenever the value that \<^verbatim>\<open>strtol\<close> gives it is in the
  range of \<^verbatim>\<open>pid_t\<close> the first call is an attach to that value, and otherwise the run
  ends with exit code 1 before any call.
\<close>

theorem non_numeric_pid:
  assumes g: "getopt_loop (PACKAGE_STRING b) (kBuildNote b) gs default_options no_output = Inr (opts, os)"
    and m: "main b gs [arg] w = Some res"
  shows "(subject_digits arg = [] \<longrightarrow>
            strtol arg = 0 \<and> \<not> (strtol arg > pid_t_max \<or> strtol arg < pid_t_min) \<and>
            run_calls res \<noteq> [] \<and> hd (run_calls res) = Call_PtraceAttach 0 (attach_r w)) \<and>
         (\<not> (strtol arg > pid_t_max \<or> strtol arg < pid_t_min) \<longrightarrow>
            run_calls res \<noteq> [] \<and>
            hd (run_calls res) = Call_PtraceAttach (strtol arg) (attach_r w)) \<and>
         (strtol arg > pid_t_max \<or> strtol arg < pid_t_min \<longrightarrow>
            run_status res = Exit 1 \<and> run_calls res = [])"
proof -
  have in_range: "run_calls res \<noteq> [] \<and>
      hd (run_calls res) = Call_PtraceAttach (strtol arg) (attach_r w)"
    if "\<not> (strtol arg > pid_t_max \<or> strtol arg < pid_t_min)"
  proof -
    from that have lo: "pid_t_min \<le> strtol arg" and hi: "strtol arg \<le> pid_t_max" by simp_all
    obtain r st where run: "sample_all opts (clock_per_us b) (strtol arg) w = Some (r, st)"
      and calls: "run_calls res = calls st"
      using main_sampled [OF g lo hi, of w] m
      by (auto split: option.splits exn.splits if_splits)
    from sample_all_head [OF run] calls show ?thesis by simp
  qed
  have zero: "strtol arg = 0" if "subject_digits arg = []"
    using that by (simp add: strtol_def Let_def LONG_MAX_def LONG_MIN_def)
  have zero_ok: "\<not> ((0::int) > pid_t_max \<or> (0::int) < pid_t_min)"
    by (simp add: pid_t_min_def pid_t_max_def)
  have out: "run_status res = Exit 1 \<and> run_calls res = []"
    if "strtol arg > pid_t_max \<or> strtol arg < pid_t_min"
    using main_out_of_range [OF g that, of w] m by auto
  show ?thesis
    using in_range zero zero_ok out by (metis (full_types))
qed

lemma no_digits_abc: "subject_digits ''abc'' = []"
  by (simp add: subject_digits_def skip_sign_def isspace_def isdigit_def)

lemma strtol_12abc: "strtol ''12abc'' = 12"
  by (simp add: strtol_def subject_digits_def skip_sign_def isspace_def isdigit_def
        digit_val_def LONG_MAX_def LONG_MIN_def Let_def)

lemma no_target_main:
  assumes "pid_t_min \<le> strtol arg" and "strtol arg \<le> pid_t_max"
  shows "main demo_build [] [arg] no_target_world =
     Some \<lparr>run_streams = \<lparr>cout_buf = [], cerr_buf = ''Failed to attach to PID 1234\<newline>''\<rparr>,
           run_status = Exit 1,
           run_calls = [Call_PtraceAttach (strtol arg)
                          (Some (PtraceException ''Failed to attach to PID 1234''))]\<rparr>"
proof -
  have g: "getopt_loop (PACKAGE_STRING demo_build) (kBuildNote demo_build) [] default_options
             no_output = Inr (default_options, no_output)" by simp
  show ?thesis
    using main_sampled [OF g assms, of no_target_world] no_target_run [of "strtol arg"]
    by (simp add: demo_build_def cerr_def no_output_def)
qed

theorem non_numeric_pid_witness:
  "getopt_loop (PACKAGE_STRING demo_build) (kBuildNote demo_build) [] default_options no_output =
     Inr (default_options, no_output) \<and>
   subject_digits ''abc'' = [] \<and>
   main demo_build [] [''abc''] no_target_world =
     Some \<lparr>run_streams = \<lparr>cout_buf = [], cerr_buf = ''Failed to attach to PID 1234\<newline>''\<rparr>,
           run_status = Exit 1,
           run_calls = [Call_PtraceAttach 0 (Some (PtraceException ''Failed to attach to PID 1234''))]\<rparr> \<and>
   strtol ''abc'' = 0 \<and>
   main demo_build [] [''12abc''] no_target_world =
     Some \<lparr>run_streams = \<lparr>cout_buf = [], cerr_buf = ''Failed to attach to PID 1234\<newline>''\<rparr>,
           run_status = Exit 1,
           run_calls = [Call_PtraceAttach 12 (Some (PtraceException ''Failed to attach to PID 1234''))]\<rparr> \<and>
   strtol ''12abc'' = 12 \<and>
   strtol ''99999999999'' > pid_t_max \<and>
   main demo_build [] [''99999999999''] no_target_world =
     Some \<lparr>run_streams =
             \<lparr>cout_buf = [], cerr_buf = ''PID 99999999999 is out of valid PID range.\<newline>''\<rparr>,
           run_status = Exit 1, run_calls = []\<rparr>"
proof -
  have g: "getopt_loop (PACKAGE_STRING demo_build) (kBuildNote demo_build) [] default_options
             no_output = Inr (default_options, no_output)" by simp
  have z: "strtol ''abc'' = 0"
    using no_digits_abc by (simp add: strtol_def Let_def LONG_MAX_def LONG_MIN_def)
  have m0: "main demo_build [] [''abc''] no_target_world =
     Some \<lparr>run_streams = \<lparr>cout_buf = [], cerr_buf = ''Failed to attach to PID 1234\<newline>''\<rparr>,
           run_status = Exit 1,
           run_calls = [Call_PtraceAttach 0 (Some (PtraceException ''Failed to attach to PID 1234''))]\<rparr>"
    using no_target_main [of "''abc''"] by (simp add: z pid_t_min_def pid_t_max_def)
  have m12: "main demo_build [] [''12abc''] no_target_world =
     Some \<lparr>run_streams = \<lparr>cout_buf = [], cerr_buf = ''Failed to attach to PID 1234\<newline>''\<rparr>,
           run_status = Exit 1,
           run_calls = [Call_PtraceAttach 12 (Some (PtraceException ''Failed to attach to PID 1234''))]\<rparr>"
    using no_target_main [of "''12abc''"] by (simp add: strtol_12abc pid_t_min_def pid_t_max_def)
  have big: "strtol ''99999999999'' > pid_t_max" by (simp add: strtol_big pid_t_max_def)
  have sl: "show_long 99999999999 = ''99999999999''"
    by (simp add: show_long_nonneg show_nat_step show_nat_digit digit_char_def)
  have mb: "main demo_build [] [''99999999999''] no_target_world =
     Some \<lparr>run_streams =
             \<lparr>cout_buf = [], cerr_buf = ''PID 99999999999 is out of valid PID range.\<newline>''\<rparr>,
           run_status = Exit 1, run_calls = []\<rparr>"
    using main_out_of_range [OF g, of "''99999999999''" no_target_world] big
    by (simp add: strtol_big sl cerr_def no_output_def)
  from non_numeric_pid [OF g m0] non_numeric_pid [OF g m12] non_numeric_pid [OF g mb]
    g no_digits_abc m0 z m12 strtol_12abc big mb
  show ?thesis by simp
qed

text \<open>
  The claim as first stated has the parse yield 0 for every argument that is not a valid
  decimal number. \<open>12abc\<close> is not one, and parses to 12: the attach goes to PID 12.
\<close>

theorem numeric_prefix_counterexample:
  "\<not> is_decimal_number ''12abc'' \<and> strtol ''12abc'' = 12 \<and>
   main demo_build [] [''12abc''] no_target_world =
     Some \<lparr>run_streams = \<lparr>cout_buf = [], cerr_buf = ''Failed to attach to PID 1234\<newline>''\<rparr>,
           run_status = Exit 1,
           run_calls = [Call_PtraceAttach 12 (Some (PtraceException ''Failed to attach to PID 1234''))]\<rparr>"
proof -
  have n: "\<not> is_decimal_number ''12abc''"
    by (simp add: is_decimal_number_def skip_sign_def isdigit_def)
  have m: "main demo_build [] [''12abc''] no_target_world =
     Some \<lparr>run_streams = \<lparr>cout_buf = [], cerr_buf = ''Failed to attach to PID 1234\<newline>''\<rparr>,
           run_status = Exit 1,
           run_calls = [Call_PtraceAttach 12 (Some (PtraceException ''Failed to attach to PID 1234''))]\<rparr>"
    using no_target_main [of "''12abc''"] by (simp add: strtol_12abc pid_t_min_def pid_t_max_def)
  show ?thesis using n m by (simp add: strtol_12abc)
qed

end
